theory Spec2Isabelle
  imports Complex_Main
begin

section \<open>Tables, cells and the dataframe primitives the dashboards call\<close>

text \<open>
  The four dashboards hold their data in dataframes: named columns, labelled rows, and
  cells that are a string, a number, a timestamp or missing (NaN, None and NaT alike).
  Numbers are exact rationals here; the integer dtype is a number with an integral value.
\<close>

record timestamp =
  ts_year :: int
  ts_month :: int
  ts_day :: int
  ts_hour :: int
  ts_minute :: int

datatype cell = NA | Str string | Num rat | Ts timestamp

datatype error = KeyError string | TypeError | ValueError | AttributeError

type_synonym series = "(nat \<times> cell) list"

record dataframe =
  columns :: "string list"
  rows :: "(nat \<times> cell list) list"

text \<open>Every row carries one cell per column.\<close>

definition wf_df :: "dataframe \<Rightarrow> bool" where
  "wf_df df = (\<forall>r \<in> set (rows df). length (snd r) = length (columns df))"

fun index_of :: "string \<Rightarrow> string list \<Rightarrow> nat" where
  "index_of c [] = 0"
| "index_of c (x # xs) = (if x = c then 0 else Suc (index_of c xs))"

definition cell_at :: "cell list \<Rightarrow> nat \<Rightarrow> cell" where
  "cell_at r k = (if k < length r then r ! k else NA)"

definition cell_of :: "dataframe \<Rightarrow> string \<Rightarrow> cell list \<Rightarrow> cell" where
  "cell_of df c r = cell_at r (index_of c (columns df))"

text \<open>\<^verbatim>\<open>df[c]\<close>: the column as a series, KeyError when the frame has no such column.\<close>

definition getcol :: "dataframe \<Rightarrow> string \<Rightarrow> error + series" where
  "getcol df c =
     (if c \<in> set (columns df)
      then Inr (map (\<lambda>(i, r). (i, cell_of df c r)) (rows df))
      else Inl (KeyError c))"

text \<open>\<^verbatim>\<open>s.isin(values)\<close>: membership per entry; a missing entry matches a missing
  value of the list.\<close>

definition isin :: "series \<Rightarrow> cell list \<Rightarrow> bool list" where
  "isin s vals = map (\<lambda>(i, c). c \<in> set vals) s"

text \<open>\<^verbatim>\<open>s.isna()\<close>.\<close>

definition isna :: "series \<Rightarrow> bool list" where
  "isna s = map (\<lambda>(i, c). c = NA) s"

text \<open>\<^verbatim>\<open>s.between(lo, hi)\<close>, inclusive on both ends: a missing entry compares
  False, an entry that is not a number cannot be compared with one.\<close>

fun between_cell :: "int \<Rightarrow> int \<Rightarrow> cell \<Rightarrow> error + bool" where
  "between_cell lo hi NA = Inr False"
| "between_cell lo hi (Num x) = Inr (of_int lo \<le> x \<and> x \<le> of_int hi)"
| "between_cell lo hi (Str s) = Inl TypeError"
| "between_cell lo hi (Ts t) = Inl TypeError"

fun collect :: "(error + 'a) list \<Rightarrow> error + 'a list" where
  "collect [] = Inr []"
| "collect (x # xs) =
     (case x of Inl e \<Rightarrow> Inl e
      | Inr v \<Rightarrow> (case collect xs of Inl e \<Rightarrow> Inl e | Inr vs \<Rightarrow> Inr (v # vs)))"

definition between :: "series \<Rightarrow> int \<Rightarrow> int \<Rightarrow> error + bool list" where
  "between s lo hi = collect (map (\<lambda>(i, c). between_cell lo hi c) s)"

text \<open>Elementwise \<^verbatim>\<open>&\<close> and \<^verbatim>\<open>|\<close> of two masks over the same rows.\<close>

definition mask_and :: "bool list \<Rightarrow> bool list \<Rightarrow> bool list" where
  "mask_and a b = map (\<lambda>(x, y). x \<and> y) (zip a b)"

definition mask_or :: "bool list \<Rightarrow> bool list \<Rightarrow> bool list" where
  "mask_or a b = map (\<lambda>(x, y). x \<or> y) (zip a b)"

text \<open>\<^verbatim>\<open>df[mask]\<close>: the rows whose mask entry is True, labels and order kept.\<close>

definition select_rows :: "dataframe \<Rightarrow> bool list \<Rightarrow> dataframe" where
  "select_rows df m = df\<lparr>rows := map fst (filter snd (zip (rows df) m))\<rparr>"

text \<open>\<^verbatim>\<open>s.unique()\<close>: the distinct entries in order of first appearance, the
  missing value among them when the series has one.\<close>

definition unique :: "series \<Rightarrow> cell list" where
  "unique s = rev (remdups (rev (map snd s)))"

text \<open>Sequencing of two steps, the first of which may raise.\<close>

definition bind_res :: "error + 'a \<Rightarrow> ('a \<Rightarrow> error + 'b) \<Rightarrow> error + 'b" where
  "bind_res m f = (case m of Inl e \<Rightarrow> Inl e | Inr v \<Rightarrow> f v)"

section \<open>Titanic dashboard: the sidebar filter\<close>

text \<open>
  \<^verbatim>\<open>
  filtered_df = df[
      (df['Sex'].isin(gender_filter)) &
      (df['Pclass'].isin(class_filter)) &
      (df['Age'].between(age_min, age_max, inclusive='both') | df['Age'].isna())
  ]
  \<close>
\<close>

definition titanic_filtered_df ::
  "dataframe \<Rightarrow> cell list \<Rightarrow> cell list \<Rightarrow> int \<Rightarrow> int \<Rightarrow> error + dataframe" where
  "titanic_filtered_df df gender_filter class_filter age_min age_max =
     bind_res (getcol df ''Sex'') (\<lambda>sex.
     bind_res (getcol df ''Pclass'') (\<lambda>pclass.
     bind_res (getcol df ''Age'') (\<lambda>age.
     bind_res (between age age_min age_max) (\<lambda>in_range.
       Inr (select_rows df
             (mask_and (mask_and (isin sex gender_filter) (isin pclass class_filter))
                       (mask_or in_range (isna age))))))))"

section \<open>Netflix dashboard: the sidebar filter\<close>

text \<open>
  \<^verbatim>\<open>
  filtered_df = df[
      (df['type'].isin(type_filter)) &
      (df['release_year'].between(year_min, year_max)) &
      (df['rating'].isin(rating_filter) | df['rating'].isna())
  ]
  \<close>
\<close>

definition netflix_filtered_df ::
  "dataframe \<Rightarrow> cell list \<Rightarrow> int \<Rightarrow> int \<Rightarrow> cell list \<Rightarrow> error + dataframe" where
  "netflix_filtered_df df type_filter year_min year_max rating_filter =
     bind_res (getcol df ''type'') (\<lambda>ty.
     bind_res (getcol df ''release_year'') (\<lambda>release_year.
     bind_res (between release_year year_min year_max) (\<lambda>in_range.
     bind_res (getcol df ''rating'') (\<lambda>rating.
       Inr (select_rows df
             (mask_and (mask_and (isin ty type_filter) in_range)
                       (mask_or (isin rating rating_filter) (isna rating))))))))"

section \<open>Retail dashboard: the sidebar filters of \<open>main\<close>\<close>

type_synonym date = "int \<times> int \<times> int"

fun date_le :: "date \<Rightarrow> date \<Rightarrow> bool" where
  "date_le (y1, m1, d1) (y2, m2, d2) =
     (y1 < y2 \<or> (y1 = y2 \<and> (m1 < m2 \<or> (m1 = m2 \<and> d1 \<le> d2))))"

text \<open>\<^verbatim>\<open>s.dt.date\<close>: the calendar date of each timestamp, a missing entry stays
  missing; a series that holds anything else has no \<^verbatim>\<open>.dt\<close> accessor.\<close>

definition ts_date :: "timestamp \<Rightarrow> date" where
  "ts_date t = (ts_year t, ts_month t, ts_day t)"

fun dt_date_cell :: "cell \<Rightarrow> error + date option" where
  "dt_date_cell NA = Inr None"
| "dt_date_cell (Ts t) = Inr (Some (ts_date t))"
| "dt_date_cell (Str s) = Inl AttributeError"
| "dt_date_cell (Num x) = Inl AttributeError"

definition dt_date :: "series \<Rightarrow> error + date option list" where
  "dt_date s = collect (map (\<lambda>(i, c). dt_date_cell c) s)"

text \<open>Comparison of a date series with one date: a missing entry compares False.\<close>

definition date_ge :: "date option list \<Rightarrow> date \<Rightarrow> bool list" where
  "date_ge ds lo = map (\<lambda>d. case d of None \<Rightarrow> False | Some x \<Rightarrow> date_le lo x) ds"

definition date_leq :: "date option list \<Rightarrow> date \<Rightarrow> bool list" where
  "date_leq ds hi = map (\<lambda>d. case d of None \<Rightarrow> False | Some x \<Rightarrow> date_le x hi) ds"

text \<open>
  \<^verbatim>\<open>
  if 'Date' in df.columns:
      date_range = st.sidebar.date_input(...)
      if len(date_range) == 2:
          df = df[(df['Date'].dt.date >= date_range[0]) & (df['Date'].dt.date <= date_range[1])]
  \<close>
  The date picker hands back one date while a range is being chosen and two afterwards.
\<close>

definition date_step :: "dataframe \<Rightarrow> date list \<Rightarrow> error + dataframe" where
  "date_step df date_range =
     (if ''Date'' \<in> set (columns df) then
        (case date_range of
           [lo, hi] \<Rightarrow>
             bind_res (getcol df ''Date'') (\<lambda>s.
             bind_res (dt_date s) (\<lambda>ds.
               Inr (select_rows df (mask_and (date_ge ds lo) (date_leq ds hi)))))
         | _ \<Rightarrow> Inr df)
      else Inr df)"

text \<open>
  \<^verbatim>\<open>
  if 'Product line' in df.columns:
      product_lines = st.sidebar.multiselect(...)
      df = df[df['Product line'].isin(product_lines)]
  \<close>
  and the same for \<^verbatim>\<open>'Branch'\<close>.
\<close>

definition isin_step :: "string \<Rightarrow> dataframe \<Rightarrow> cell list \<Rightarrow> error + dataframe" where
  "isin_step c df selected =
     (if c \<in> set (columns df)
      then bind_res (getcol df c) (\<lambda>s. Inr (select_rows df (isin s selected)))
      else Inr df)"

definition main_filter ::
  "dataframe \<Rightarrow> date list \<Rightarrow> cell list \<Rightarrow> cell list \<Rightarrow> error + dataframe" where
  "main_filter df date_range product_lines branches =
     bind_res (date_step df date_range) (\<lambda>df1.
     bind_res (isin_step ''Product line'' df1 product_lines) (\<lambda>df2.
       isin_step ''Branch'' df2 branches))"

section \<open>Netflix dashboard: multi-valued columns\<close>

text \<open>
  Python's \<^verbatim>\<open>s.split(sep)\<close> for a separator taken literally (as \<^verbatim>\<open>', '\<close>
  is): the text is scanned from the left, every occurrence of the separator ends a piece
  and is skipped. \<open>acc\<close> holds the current piece, reversed.
\<close>

function split_from :: "string \<Rightarrow> string \<Rightarrow> string \<Rightarrow> string list" where
  "split_from sep acc [] = [rev acc]"
| "split_from sep acc (c # cs) =
     (if sep \<noteq> [] \<and> take (length sep) (c # cs) = sep
      then rev acc # split_from sep [] (drop (length sep) (c # cs))
      else split_from sep (c # acc) cs)"
  by pat_completeness auto
termination
  by (relation "measure (\<lambda>(sep, acc, rest). length rest)") auto

definition py_split :: "string \<Rightarrow> string \<Rightarrow> string list" where
  "py_split sep s = split_from sep [] s"

text \<open>\<^verbatim>\<open>s.dropna()\<close>: the entries that are not missing, labels kept.\<close>

definition dropna :: "series \<Rightarrow> series" where
  "dropna s = filter (\<lambda>(i, c). c \<noteq> NA) s"

text \<open>\<^verbatim>\<open>s.str.split(sep)\<close>: each text becomes the list of its pieces, a missing
  entry stays missing; a column of numbers or timestamps has no \<^verbatim>\<open>.str\<close>
  accessor.\<close>

fun str_split_cell :: "string \<Rightarrow> cell \<Rightarrow> error + string list option" where
  "str_split_cell sep NA = Inr None"
| "str_split_cell sep (Str s) = Inr (Some (py_split sep s))"
| "str_split_cell sep (Num x) = Inl AttributeError"
| "str_split_cell sep (Ts t) = Inl AttributeError"

definition str_split :: "series \<Rightarrow> string \<Rightarrow> error + (nat \<times> string list option) list" where
  "str_split s sep =
     collect (map (\<lambda>(i, c). case str_split_cell sep c of Inl e \<Rightarrow> Inl e
                                                       | Inr v \<Rightarrow> Inr (i, v)) s)"

text \<open>\<^verbatim>\<open>s.explode()\<close>: one entry per list element under the label of the entry it
  came from; an empty list and a missing entry each give one missing entry.\<close>

fun explode_entry :: "nat \<times> string list option \<Rightarrow> series" where
  "explode_entry (i, None) = [(i, NA)]"
| "explode_entry (i, Some []) = [(i, NA)]"
| "explode_entry (i, Some (v # vs)) = map (\<lambda>x. (i, Str x)) (v # vs)"

definition explode :: "(nat \<times> string list option) list \<Rightarrow> series" where
  "explode s = concat (map explode_entry s)"

text \<open>
  \<^verbatim>\<open>countries_series = filtered_df['country'].dropna().str.split(', ').explode()\<close>
\<close>

definition countries_series :: "dataframe \<Rightarrow> error + series" where
  "countries_series filtered_df =
     bind_res (getcol filtered_df ''country'') (\<lambda>s.
     bind_res (str_split (dropna s) '', '') (\<lambda>l. Inr (explode l)))"

text \<open>
  \<^verbatim>\<open>genres = filtered_df['listed_in'].str.split(', ').explode()\<close>
\<close>

definition genres :: "dataframe \<Rightarrow> error + series" where
  "genres filtered_df =
     bind_res (getcol filtered_df ''listed_in'') (\<lambda>s.
     bind_res (str_split s '', '') (\<lambda>l. Inr (explode l)))"

section \<open>Grouping and aggregation\<close>

text \<open>
  \<^verbatim>\<open>df.groupby(key)\<close> forms one group per distinct value of the key column that is
  not missing (rows whose key is missing belong to no group) and presents the groups in
  ascending order of the key. Texts are ordered by code point, numbers by value; a key
  column holds values of one kind, and across kinds the order below is an arbitrary fixed
  one.
\<close>

fun str_le :: "string \<Rightarrow> string \<Rightarrow> bool" where
  "str_le [] ys = True"
| "str_le (x # xs) [] = False"
| "str_le (x # xs) (y # ys) =
     ((of_char x :: nat) < of_char y \<or> (x = y \<and> str_le xs ys))"

fun cell_le :: "cell \<Rightarrow> cell \<Rightarrow> bool" where
  "cell_le (Num x) (Num y) = (x \<le> y)"
| "cell_le (Str a) (Str b) = str_le a b"
| "cell_le (Ts t) (Ts u) =
     (let a = (ts_year t, ts_month t, ts_day t); b = (ts_year u, ts_month u, ts_day u)
      in if a = b then ts_hour t < ts_hour u \<or> (ts_hour t = ts_hour u \<and> ts_minute t \<le> ts_minute u)
         else date_le a b)"
| "cell_le NA c = True"
| "cell_le c NA = False"
| "cell_le (Num x) c = True"
| "cell_le c (Num y) = False"
| "cell_le (Str a) c = True"
| "cell_le c (Str b) = False"

fun insort_cell :: "cell \<Rightarrow> cell list \<Rightarrow> cell list" where
  "insort_cell c [] = [c]"
| "insort_cell c (x # xs) = (if cell_le c x then c # x # xs else x # insort_cell c xs)"

definition sort_cells :: "cell list \<Rightarrow> cell list" where
  "sort_cells cs = foldr insort_cell cs []"

definition group_keys :: "series \<Rightarrow> cell list" where
  "group_keys s = sort_cells (unique (dropna s))"

text \<open>The rows of the group of key \<open>k\<close>, and the cells of one of its columns.\<close>

definition group_rows :: "dataframe \<Rightarrow> string \<Rightarrow> cell \<Rightarrow> (nat \<times> cell list) list" where
  "group_rows df key k = filter (\<lambda>(i, r). cell_of df key r = k) (rows df)"

definition group_cells :: "dataframe \<Rightarrow> string \<Rightarrow> cell \<Rightarrow> string \<Rightarrow> cell list" where
  "group_cells df key k c = map (\<lambda>(i, r). cell_of df c r) (group_rows df key k)"

text \<open>
  The reductions. Each works on a number column, in which a cell is a number or missing;
  asked of texts or timestamps, the arithmetic ones raise. As in the library, the sum
  puts zero in place of a missing cell, the mean divides that sum by the number of cells
  present, the variance (one degree of freedom removed) sums the squared distances of the
  cells present from that mean, and minimum and maximum pass over missing cells. A group
  with no cell present has sum zero and no mean, minimum or maximum; with fewer than two,
  no standard deviation.
\<close>

fun numeric_cell :: "cell \<Rightarrow> error + rat option" where
  "numeric_cell NA = Inr None"
| "numeric_cell (Num x) = Inr (Some x)"
| "numeric_cell (Str s) = Inl TypeError"
| "numeric_cell (Ts t) = Inl TypeError"

definition numeric :: "cell list \<Rightarrow> error + rat option list" where
  "numeric cs = collect (map numeric_cell cs)"

definition nansum :: "rat option list \<Rightarrow> rat" where
  "nansum vs = sum_list (map (\<lambda>v. case v of None \<Rightarrow> 0 | Some x \<Rightarrow> x) vs)"

definition count_valid :: "'a option list \<Rightarrow> nat" where
  "count_valid vs = length (filter (\<lambda>v. v \<noteq> None) vs)"

definition nanmean :: "rat option list \<Rightarrow> rat option" where
  "nanmean vs =
     (if count_valid vs = 0 then None else Some (nansum vs / of_nat (count_valid vs)))"

fun nanmin_step :: "rat option \<Rightarrow> rat option \<Rightarrow> rat option" where
  "nanmin_step None acc = acc"
| "nanmin_step (Some x) None = Some x"
| "nanmin_step (Some x) (Some m) = Some (min m x)"

fun nanmax_step :: "rat option \<Rightarrow> rat option \<Rightarrow> rat option" where
  "nanmax_step None acc = acc"
| "nanmax_step (Some x) None = Some x"
| "nanmax_step (Some x) (Some m) = Some (max m x)"

definition nanmin :: "rat option list \<Rightarrow> rat option" where
  "nanmin vs = fold nanmin_step vs None"

definition nanmax :: "rat option list \<Rightarrow> rat option" where
  "nanmax vs = fold nanmax_step vs None"

definition nanvar :: "rat option list \<Rightarrow> rat option" where
  "nanvar vs =
     (let n = count_valid vs in
      if n \<le> 1 then None
      else let avg = nansum vs / of_nat n;
               sqr = map (\<lambda>v. case v of None \<Rightarrow> 0 | Some x \<Rightarrow> (avg - x)\<^sup>2) vs
           in Some (sum_list sqr / of_nat (n - 1)))"

definition nanstd :: "rat option list \<Rightarrow> real option" where
  "nanstd vs = map_option (\<lambda>v. sqrt (of_rat v)) (nanvar vs)"

text \<open>\<^verbatim>\<open>count\<close>: the cells present; \<^verbatim>\<open>nunique\<close>: the distinct cells present.\<close>

definition count_cells :: "cell list \<Rightarrow> nat" where
  "count_cells cs = length (filter (\<lambda>c. c \<noteq> NA) cs)"

definition nunique :: "cell list \<Rightarrow> nat" where
  "nunique cs = length (remdups (filter (\<lambda>c. c \<noteq> NA) cs))"

text \<open>\<^verbatim>\<open>.round(n)\<close>: to \<open>n\<close> decimals, a tie going to the even neighbour.\<close>

definition round_half_even :: "'a :: floor_ceiling \<Rightarrow> int" where
  "round_half_even x =
     (let f = \<lfloor>x\<rfloor>; d = x - of_int f
      in if d < 1 / 2 then f else if 1 / 2 < d then f + 1 else if even f then f else f + 1)"

definition round_dp :: "nat \<Rightarrow> 'a :: floor_ceiling \<Rightarrow> 'a" where
  "round_dp n x = of_int (round_half_even (x * 10 ^ n)) / 10 ^ n"

subsection \<open>Retail dashboard: the product performance table\<close>




subsection \<open>Netflix dashboard: the statistics table and the group sizes\<close>

text \<open>
  \<^verbatim>\<open>
  stats = filtered_df.groupby('type').agg(
      Total=('show_id', 'count'),
      Avg_Year=('release_year', 'mean'),
      Min_Year=('release_year', 'min'),
      Max_Year=('release_year', 'max'),
      Std_Year=('release_year', 'std'),
      Countries=('country', 'nunique'),
      Directors=('director', 'nunique')
  ).round(2)
  \<close>
\<close>

record stats_row =
  Total :: nat
  Avg_Year :: "rat option"
  Min_Year :: "rat option"
  Max_Year :: "rat option"
  Std_Year :: "real option"
  Countries :: nat
  Directors :: nat

definition stats_group :: "dataframe \<Rightarrow> cell \<Rightarrow> error + cell \<times> stats_row" where
  "stats_group df k =
     bind_res (numeric (group_cells df ''type'' k ''release_year'')) (\<lambda>year.
       Inr (k, \<lparr>Total = count_cells (group_cells df ''type'' k ''show_id''),
                Avg_Year = map_option (round_dp 2) (nanmean year),
                Min_Year = map_option (round_dp 2) (nanmin year),
                Max_Year = map_option (round_dp 2) (nanmax year),
                Std_Year = map_option (round_dp 2) (nanstd year),
                Countries = nunique (group_cells df ''type'' k ''country''),
                Directors = nunique (group_cells df ''type'' k ''director'')\<rparr>))"

definition stats :: "dataframe \<Rightarrow> error + (cell \<times> stats_row) list" where
  "stats filtered_df =
     bind_res (getcol filtered_df ''type'') (\<lambda>keys.
     bind_res (getcol filtered_df ''show_id'') (\<lambda>_.
     bind_res (getcol filtered_df ''release_year'') (\<lambda>_.
     bind_res (getcol filtered_df ''country'') (\<lambda>_.
     bind_res (getcol filtered_df ''director'') (\<lambda>_.
       collect (map (stats_group filtered_df) (group_keys keys)))))))"

text \<open>\<^verbatim>\<open>df.groupby(key).size()\<close>: the number of rows of each group, as in
  \<^verbatim>\<open>added = filtered_df.groupby('year_added').size()\<close>.\<close>

definition groupby_size :: "dataframe \<Rightarrow> string \<Rightarrow> error + (cell \<times> nat) list" where
  "groupby_size df key =
     bind_res (getcol df key) (\<lambda>keys.
       Inr (map (\<lambda>k. (k, length (group_rows df key k))) (group_keys keys)))"

definition added :: "dataframe \<Rightarrow> error + (cell \<times> nat) list" where
  "added filtered_df = groupby_size filtered_df ''year_added''"

section \<open>Loading: column assignment and the derived columns\<close>

text \<open>
  \<^verbatim>\<open>df[target] = ...\<close> with one value per row: the column is overwritten where
  the frame has it and added as the last column where it has not.
\<close>

definition set_cell :: "string list \<Rightarrow> string \<Rightarrow> cell list \<Rightarrow> cell \<Rightarrow> cell list" where
  "set_cell cols c r v = (if c \<in> set cols then r[index_of c cols := v] else r @ [v])"

definition setcol :: "dataframe \<Rightarrow> string \<Rightarrow> cell list \<Rightarrow> dataframe" where
  "setcol df c vs =
     \<lparr>columns = (if c \<in> set (columns df) then columns df else columns df @ [c]),
      rows = map (\<lambda>((i, r), v). (i, set_cell (columns df) c r v)) (zip (rows df) vs)\<rparr>"

text \<open>\<^verbatim>\<open>df[target] = f(df[source])\<close> for an operation \<open>f\<close> that works cell by cell,
  and the same for an operation on two columns.\<close>

definition map_column ::
  "string \<Rightarrow> string \<Rightarrow> (cell \<Rightarrow> error + cell) \<Rightarrow> dataframe \<Rightarrow> error + dataframe" where
  "map_column target source f df =
     bind_res (getcol df source) (\<lambda>s.
     bind_res (collect (map (\<lambda>(i, c). f c) s)) (\<lambda>vs. Inr (setcol df target vs)))"

definition map_column2 ::
  "string \<Rightarrow> string \<Rightarrow> string \<Rightarrow> (cell \<Rightarrow> cell \<Rightarrow> error + cell) \<Rightarrow> dataframe
     \<Rightarrow> error + dataframe" where
  "map_column2 target source1 source2 f df =
     bind_res (getcol df source1) (\<lambda>s1.
     bind_res (getcol df source2) (\<lambda>s2.
     bind_res (collect (map (\<lambda>((i, a), (j, b)). f a b) (zip s1 s2))) (\<lambda>vs.
       Inr (setcol df target vs))))"

text \<open>\<^verbatim>\<open>df.dropna(subset=[c])\<close>.\<close>

definition dropna_subset :: "dataframe \<Rightarrow> string \<Rightarrow> error + dataframe" where
  "dropna_subset df c =
     (if c \<in> set (columns df)
      then Inr (df\<lparr>rows := filter (\<lambda>(i, r). cell_of df c r \<noteq> NA) (rows df)\<rparr>)
      else Inl (KeyError c))"

text \<open>\<^verbatim>\<open>s.fillna(v)\<close>, one cell.\<close>

definition fillna_cell :: "cell \<Rightarrow> cell \<Rightarrow> error + cell" where
  "fillna_cell v c = Inr (if c = NA then v else c)"

text \<open>\<^verbatim>\<open>df.drop_duplicates()\<close>: of the rows that agree in every cell the first is
  kept; the row labels play no part in the comparison.\<close>

fun drop_dups :: "cell list list \<Rightarrow> (nat \<times> cell list) list \<Rightarrow> (nat \<times> cell list) list" where
  "drop_dups seen [] = []"
| "drop_dups seen ((i, r) # rs) =
     (if r \<in> set seen then drop_dups seen rs else (i, r) # drop_dups (r # seen) rs)"

definition drop_duplicates :: "dataframe \<Rightarrow> dataframe" where
  "drop_duplicates df = df\<lparr>rows := drop_dups [] (rows df)\<rparr>"

text \<open>\<^verbatim>\<open>s.astype(int)\<close>, one cell: a number loses its fraction (towards zero), a
  missing cell cannot be cast; a column that was read as text holds a text that is no
  number, which cannot be cast either.\<close>

definition truncate_rat :: "rat \<Rightarrow> int" where
  "truncate_rat x = (if 0 \<le> x then \<lfloor>x\<rfloor> else \<lceil>x\<rceil>)"

fun astype_int_cell :: "cell \<Rightarrow> error + cell" where
  "astype_int_cell (Num x) = Inr (Num (of_int (truncate_rat x)))"
| "astype_int_cell NA = Inl ValueError"
| "astype_int_cell (Str s) = Inl ValueError"
| "astype_int_cell (Ts t) = Inl TypeError"

text \<open>\<^verbatim>\<open>pd.to_datetime(s)\<close>, one cell. How a text or a number is read as a timestamp
  is the library's business: \<open>parse\<close> stands for it, \<open>None\<close> where it raises.\<close>

fun to_datetime_cell :: "(cell \<Rightarrow> timestamp option) \<Rightarrow> cell \<Rightarrow> error + cell" where
  "to_datetime_cell parse NA = Inr NA"
| "to_datetime_cell parse (Ts t) = Inr (Ts t)"
| "to_datetime_cell parse c = (case parse c of None \<Rightarrow> Inl ValueError | Some t \<Rightarrow> Inr (Ts t))"

text \<open>\<^verbatim>\<open>s.dt.year\<close> and its like, one cell.\<close>

fun dt_field :: "(timestamp \<Rightarrow> int) \<Rightarrow> cell \<Rightarrow> error + cell" where
  "dt_field f NA = Inr NA"
| "dt_field f (Ts t) = Inr (Num (of_int (f t)))"
| "dt_field f (Str s) = Inl AttributeError"
| "dt_field f (Num x) = Inl AttributeError"

text \<open>\<^verbatim>\<open>s.dt.month_name()\<close> and \<^verbatim>\<open>s.dt.day_name()\<close>, one cell; the name is the
  library's, given by \<open>name\<close>.\<close>

fun dt_name :: "(timestamp \<Rightarrow> string) \<Rightarrow> cell \<Rightarrow> error + cell" where
  "dt_name name NA = Inr NA"
| "dt_name name (Ts t) = Inr (Str (name t))"
| "dt_name name (Str s) = Inl AttributeError"
| "dt_name name (Num x) = Inl AttributeError"

text \<open>The product of two number cells; missing if either is missing. (Only number
  columns are multiplied in the dashboards: a text or a timestamp raises here.)\<close>

fun mul_cell :: "cell \<Rightarrow> cell \<Rightarrow> error + cell" where
  "mul_cell (Num a) (Num b) = Inr (Num (a * b))"
| "mul_cell NA (Num b) = Inr NA"
| "mul_cell (Num a) NA = Inr NA"
| "mul_cell NA NA = Inr NA"
| "mul_cell a b = Inl TypeError"

subsection \<open>E-commerce dashboard: \<open>clean_data\<close>\<close>

text \<open>
  \<^verbatim>\<open>
  def clean_data(df):
      df_clean = df.copy()
      # Drop missing CustomerID
      df_clean = df_clean.dropna(subset=['CustomerID'])
      # Fill missing Description
      df_clean['Description'] = df_clean['Description'].fillna('No Description')
      # Remove duplicates
      df_clean = df_clean.drop_duplicates()
      # Convert types
      df_clean['CustomerID'] = df_clean['CustomerID'].astype(int)
      df_clean['InvoiceDate'] = pd.to_datetime(df_clean['InvoiceDate'])
      # Add columns
      df_clean['Year'] = df_clean['InvoiceDate'].dt.year
      df_clean['Month'] = df_clean['InvoiceDate'].dt.month
      df_clean['TotalPrice'] = df_clean['Quantity'] * df_clean['UnitPrice']
      return df_clean
  \<close>
\<close>

definition clean_data :: "(cell \<Rightarrow> timestamp option) \<Rightarrow> dataframe \<Rightarrow> error + dataframe" where
  "clean_data parse df =
     bind_res (dropna_subset df ''CustomerID'') (\<lambda>d1.
     bind_res (map_column ''Description'' ''Description''
                 (fillna_cell (Str ''No Description'')) d1) (\<lambda>d2.
     bind_res (map_column ''CustomerID'' ''CustomerID'' astype_int_cell (drop_duplicates d2)) (\<lambda>d3.
     bind_res (map_column ''InvoiceDate'' ''InvoiceDate'' (to_datetime_cell parse) d3) (\<lambda>d4.
     bind_res (map_column ''Year'' ''InvoiceDate'' (dt_field ts_year) d4) (\<lambda>d5.
     bind_res (map_column ''Month'' ''InvoiceDate'' (dt_field ts_month) d5) (\<lambda>d6.
       map_column2 ''TotalPrice'' ''Quantity'' ''UnitPrice'' mul_cell d6))))))"

subsection \<open>Retail dashboard: \<open>load_data\<close>\<close>

text \<open>
  \<^verbatim>\<open>
  def load_data(file):
      try:
          df = pd.read_csv(file)
          df['Date'] = pd.to_datetime(df['Date'])
          df['Year'] = df['Date'].dt.year
          df['Month'] = df['Date'].dt.month
          df['Month_Name'] = df['Date'].dt.month_name()
          df['Day'] = df['Date'].dt.day
          df['DayOfWeek'] = df['Date'].dt.day_name()
          if 'Time' in df.columns:
              df['Time'] = pd.to_datetime(df['Time'], format='%H:%M').dt.time
              df['Hour'] = pd.to_datetime(df['Time'].astype(str)).dt.hour
          return df
      except Exception as e:
          st.error(f"Error loading data: {e}")
          return None
  \<close>
  The model starts from the frame that \<^verbatim>\<open>read_csv\<close> gives. A time of day is held as
  the timestamp the first parse of the Time column gives; printing it and parsing it
  again keeps its hour.
\<close>

definition load_steps ::
  "(cell \<Rightarrow> timestamp option) \<Rightarrow> (cell \<Rightarrow> timestamp option) \<Rightarrow> (timestamp \<Rightarrow> string)
     \<Rightarrow> (timestamp \<Rightarrow> string) \<Rightarrow> dataframe \<Rightarrow> error + dataframe" where
  "load_steps parse parse_time month_name day_name df =
     bind_res (map_column ''Date'' ''Date'' (to_datetime_cell parse) df) (\<lambda>d1.
     bind_res (map_column ''Year'' ''Date'' (dt_field ts_year) d1) (\<lambda>d2.
     bind_res (map_column ''Month'' ''Date'' (dt_field ts_month) d2) (\<lambda>d3.
     bind_res (map_column ''Month_Name'' ''Date'' (dt_name month_name) d3) (\<lambda>d4.
     bind_res (map_column ''Day'' ''Date'' (dt_field ts_day) d4) (\<lambda>d5.
     bind_res (map_column ''DayOfWeek'' ''Date'' (dt_name day_name) d5) (\<lambda>d6.
       if ''Time'' \<in> set (columns d6) then
         bind_res (map_column ''Time'' ''Time'' (to_datetime_cell parse_time) d6) (\<lambda>d7.
           map_column ''Hour'' ''Time'' (dt_field ts_hour) d7)
       else Inr d6))))))"

definition load_data ::
  "(cell \<Rightarrow> timestamp option) \<Rightarrow> (cell \<Rightarrow> timestamp option) \<Rightarrow> (timestamp \<Rightarrow> string)
     \<Rightarrow> (timestamp \<Rightarrow> string) \<Rightarrow> dataframe \<Rightarrow> dataframe option" where
  "load_data parse parse_time month_name day_name df =
     (case load_steps parse parse_time month_name day_name df of
        Inl e \<Rightarrow> None
      | Inr out \<Rightarrow> Some out)"

section \<open>Titanic dashboard: the views on the filtered table\<close>

text \<open>What a view puts on the page: a number on a metric card (not-a-number prints as
  \<^verbatim>\<open>nan\<close>), a heat map with its row keys, column keys and cells, or a warning.\<close>

datatype rendering =
  Metric "rat option"
| Heatmap "cell list" "cell list" "rat option list list"
| Warning string

text \<open>
  \<^verbatim>\<open>
  survival_rate = filtered_df['Survived'].mean() * 100
  st.markdown(f"""... {survival_rate:.1f}% ... Survival Rate ...""")
  \<close>
\<close>

definition survival_rate :: "dataframe \<Rightarrow> error + rendering" where
  "survival_rate filtered_df =
     bind_res (getcol filtered_df ''Survived'') (\<lambda>s.
     bind_res (numeric (map snd s)) (\<lambda>vs.
       Inr (Metric (map_option (\<lambda>m. m * 100) (nanmean vs)))))"

text \<open>
  \<^verbatim>\<open>
  pivot_data = filtered_df.groupby(['Sex', 'Pclass'])['Survived'].mean().unstack() * 100
  if not pivot_data.empty:
      ...
      fig_heatmap = px.imshow(pivot_data.values, x=x_labels, y=y_labels, ...)
      st.plotly_chart(fig_heatmap, use_container_width=True)
  else:
      st.warning("No data available for heatmap with current filters.")
  \<close>
  The groups are the pairs of a gender and a class that some row has, both present; the
  pivot has a row per gender and a column per class of those rows, and a pair that no row
  has is not-a-number.
\<close>

definition pivot_cell :: "dataframe \<Rightarrow> cell \<Rightarrow> cell \<Rightarrow> error + rat option" where
  "pivot_cell df s p =
     bind_res (numeric (map (\<lambda>(i, r). cell_of df ''Survived'' r)
                 (filter (\<lambda>(i, r). cell_of df ''Sex'' r = s \<and> cell_of df ''Pclass'' r = p)
                    (rows df)))) (\<lambda>vs.
       Inr (map_option (\<lambda>m. m * 100) (nanmean vs)))"

definition pivot_data :: "dataframe \<Rightarrow> error + cell list \<times> cell list \<times> rat option list list" where
  "pivot_data filtered_df =
     bind_res (getcol filtered_df ''Sex'') (\<lambda>_.
     bind_res (getcol filtered_df ''Pclass'') (\<lambda>_.
     bind_res (getcol filtered_df ''Survived'') (\<lambda>_.
       let grouped = filter (\<lambda>(i, r). cell_of filtered_df ''Sex'' r \<noteq> NA \<and>
                                       cell_of filtered_df ''Pclass'' r \<noteq> NA) (rows filtered_df);
           index = group_keys (map (\<lambda>(i, r). (i, cell_of filtered_df ''Sex'' r)) grouped);
           cols = group_keys (map (\<lambda>(i, r). (i, cell_of filtered_df ''Pclass'' r)) grouped)
       in bind_res (collect (map (\<lambda>s. collect (map (pivot_cell filtered_df s) cols)) index))
            (\<lambda>cells. Inr (index, cols, cells)))))"

definition heatmap :: "dataframe \<Rightarrow> error + rendering" where
  "heatmap filtered_df =
     bind_res (pivot_data filtered_df) (\<lambda>(index, cols, cells).
       if index \<noteq> [] \<and> cols \<noteq> []
       then Inr (Heatmap index cols cells)
       else Inr (Warning ''No data available for heatmap with current filters.''))"

section \<open>Retail dashboard: the strong correlations\<close>

text \<open>
  \<^verbatim>\<open>
  numerical_cols = df.select_dtypes(include=[np.number]).columns.tolist()
  numerical_cols = [col for col in numerical_cols if col not in ['Year', 'Month', 'Day', 'Hour']]
  \<close>
  Which columns are of a number dtype is a fact about the loaded frame: \<open>is_number\<close>.
\<close>

definition numerical_cols :: "(string \<Rightarrow> bool) \<Rightarrow> dataframe \<Rightarrow> string list" where
  "numerical_cols is_number df =
     filter (\<lambda>col. col \<notin> set [''Year'', ''Month'', ''Day'', ''Hour''])
       (filter is_number (columns df))"

text \<open>
  \<^verbatim>\<open>
  strong_corr = []
  for i in range(len(corr_matrix.columns)):
      for j in range(i+1, len(corr_matrix.columns)):
          if abs(corr_matrix.iloc[i, j]) > 0.7:
              strong_corr.append({
                  'Variable 1': corr_matrix.columns[i],
                  'Variable 2': corr_matrix.columns[j],
                  'Correlation': round(corr_matrix.iloc[i, j], 3)
              })
  \<close>
  The matrix is the library's: \<open>corr i j\<close> is the Pearson coefficient of the \<open>i\<close>-th and the
  \<open>j\<close>-th of the selected columns, \<open>None\<close> where it is not a number (and then it is not above
  the threshold).
\<close>

definition strong_entry ::
  "string list \<Rightarrow> (nat \<Rightarrow> nat \<Rightarrow> real option) \<Rightarrow> nat \<Rightarrow> nat \<Rightarrow> (string \<times> string \<times> real) option" where
  "strong_entry cols corr i j =
     (case corr i j of
        None \<Rightarrow> None
      | Some c \<Rightarrow> if \<bar>c\<bar> > 7 / 10 then Some (cols ! i, cols ! j, round_dp 3 c) else None)"

definition strong_corr ::
  "string list \<Rightarrow> (nat \<Rightarrow> nat \<Rightarrow> real option) \<Rightarrow> (string \<times> string \<times> real) list" where
  "strong_corr cols corr =
     fold (\<lambda>i acc.
        fold (\<lambda>j acc. case strong_entry cols corr i j of None \<Rightarrow> acc | Some e \<Rightarrow> acc @ [e])
          [i + 1 ..< length cols] acc)
       [0 ..< length cols] []"

text \<open>
  \<^verbatim>\<open>
  if len(numerical_cols) < 2:
      st.warning("Not enough numerical columns for correlation analysis")
      return
  corr_matrix = df[numerical_cols].corr()
  ...
  if strong_corr:
      st.dataframe(pd.DataFrame(strong_corr), use_container_width=True)
  else:
      st.info("No strong correlations found (|r| > 0.7)")
  \<close>
\<close>

datatype correlations =
  Not_enough_columns
| Strong "(string \<times> string \<times> real) list"
| No_strong

definition show_correlations ::
  "(string \<Rightarrow> bool) \<Rightarrow> (nat \<Rightarrow> nat \<Rightarrow> real option) \<Rightarrow> dataframe \<Rightarrow> correlations" where
  "show_correlations is_number corr df =
     (let cols = numerical_cols is_number df in
      if length cols < 2 then Not_enough_columns
      else let strong = strong_corr cols corr
           in if strong \<noteq> [] then Strong strong else No_strong)"

section \<open>Notions used in the statements\<close>

text \<open>What \<open>between\<close> answers for one cell once it has answered at all.\<close>

fun in_range :: "int \<Rightarrow> int \<Rightarrow> cell \<Rightarrow> bool" where
  "in_range lo hi (Num x) = (of_int lo \<le> x \<and> x \<le> of_int hi)"
| "in_range lo hi c = False"

text \<open>Every Date cell is a timestamp whose date is within the range.\<close>

definition dates_within :: "dataframe \<Rightarrow> date \<Rightarrow> date \<Rightarrow> bool" where
  "dates_within df lo hi =
     list_all (\<lambda>(i, r). case cell_of df ''Date'' r of
                           Ts t \<Rightarrow> date_le lo (ts_date t) \<and> date_le (ts_date t) hi
                         | _ \<Rightarrow> False) (rows df)"

text \<open>The pieces of a text put together again, the separator between them.\<close>

fun join :: "string \<Rightarrow> string list \<Rightarrow> string" where
  "join sep [] = []"
| "join sep [x] = x"
| "join sep (x # y # ys) = x @ sep @ join sep (y # ys)"

text \<open>What splitting and exploding make of a series, entry by entry.\<close>

fun exploded :: "string \<Rightarrow> nat \<times> cell \<Rightarrow> series" where
  "exploded sep (i, Str x) = map (\<lambda>v. (i, Str v)) (py_split sep x)"
| "exploded sep (i, c) = [(i, NA)]"


text \<open>The columns of a frame after the assignment of one.\<close>

definition cols_with :: "string list \<Rightarrow> string \<Rightarrow> string list" where
  "cols_with cols c = (if c \<in> set cols then cols else cols @ [c])"

text \<open>A column is derived from another when, row by row, it holds what the operation
  makes of the other column's cell.\<close>

definition derived :: "dataframe \<Rightarrow> string \<Rightarrow> string \<Rightarrow> (cell \<Rightarrow> error + cell) \<Rightarrow> bool" where
  "derived df target source f =
     (\<forall>(i, r) \<in> set (rows df). f (cell_of df source r) = Inr (cell_of df target r))"

definition derived2 ::
  "dataframe \<Rightarrow> string \<Rightarrow> string \<Rightarrow> string \<Rightarrow> (cell \<Rightarrow> cell \<Rightarrow> error + cell) \<Rightarrow> bool" where
  "derived2 df target source1 source2 f =
     (\<forall>(i, r) \<in> set (rows df).
        f (cell_of df source1 r) (cell_of df source2 r) = Inr (cell_of df target r))"

text \<open>The bookkeeping of a load: the frame is well formed, it has the two columns, and
  the one is derived from the other.\<close>

definition holds :: "dataframe \<Rightarrow> string \<Rightarrow> string \<Rightarrow> (cell \<Rightarrow> error + cell) \<Rightarrow> bool" where
  "holds df t s g \<longleftrightarrow>
     wf_df df \<and> t \<in> set (columns df) \<and> s \<in> set (columns df) \<and> derived df t s g"

text \<open>Every cell of a column has a property.\<close>

definition col_all :: "dataframe \<Rightarrow> string \<Rightarrow> (cell \<Rightarrow> bool) \<Rightarrow> bool" where
  "col_all df c P = (\<forall>(i, r) \<in> set (rows df). P (cell_of df c r))"

text \<open>The two loops, unrolled: the pairs above the diagonal, row by row.\<close>

definition upper_pairs :: "nat \<Rightarrow> (nat \<times> nat) list" where
  "upper_pairs n = concat (map (\<lambda>i. map (\<lambda>j. (i, j)) [i + 1 ..< n]) [0 ..< n])"

section \<open>Facts about the primitives\<close>

lemma bind_res_Inr [simp]: "bind_res (Inr v) f = f v"
  by (simp add: bind_res_def)

lemma bind_res_Inl [simp]: "bind_res (Inl e) f = Inl e"
  by (simp add: bind_res_def)

lemma bind_res_eq_Inr:
  "bind_res m f = Inr y \<longleftrightarrow> (\<exists>v. m = Inr v \<and> f v = Inr y)"
  by (cases m) simp_all

lemma collect_map_Inr: "collect (map Inr vs) = Inr vs"
  by (induction vs) simp_all

lemma collect_Inr_D: "collect xs = Inr vs \<Longrightarrow> xs = map Inr vs"
proof (induction xs arbitrary: vs)
  case Nil
  then show ?case by simp
next
  case (Cons x xs)
  then show ?case
    by (auto split: sum.splits)
qed

lemma collect_eq_Inr: "collect xs = Inr vs \<longleftrightarrow> xs = map Inr vs"
  using collect_map_Inr collect_Inr_D by blast

lemma zip_map_same_filter:
  "map fst (filter snd (zip xs (map f xs))) = filter f xs"
  by (induction xs) auto

lemma select_rows_map:
  "select_rows df (map f (rows df)) = df\<lparr>rows := filter f (rows df)\<rparr>"
  by (simp add: select_rows_def zip_map_same_filter)

lemma mask_and_map: "mask_and (map f xs) (map g xs) = map (\<lambda>x. f x \<and> g x) xs"
  by (induction xs) (simp_all add: mask_and_def)

lemma mask_or_map: "mask_or (map f xs) (map g xs) = map (\<lambda>x. f x \<or> g x) xs"
  by (induction xs) (simp_all add: mask_or_def)

lemma getcol_Inr:
  "getcol df c = Inr s \<longleftrightarrow>
     c \<in> set (columns df) \<and> s = map (\<lambda>(i, r). (i, cell_of df c r)) (rows df)"
  by (auto simp: getcol_def)

lemma getcol_absent: "c \<notin> set (columns df) \<Longrightarrow> getcol df c = Inl (KeyError c)"
  by (simp add: getcol_def)

lemma isin_col:
  "isin (map (\<lambda>p. (fst p, g (snd p))) rs) vals = map (\<lambda>p. g (snd p) \<in> set vals) rs"
  by (simp add: isin_def case_prod_unfold)

lemma isna_col:
  "isna (map (\<lambda>p. (fst p, g (snd p))) rs) = map (\<lambda>p. g (snd p) = NA) rs"
  by (simp add: isna_def case_prod_unfold)

lemma between_cell_Inr: "between_cell lo hi c = Inr b \<Longrightarrow> b = in_range lo hi c"
  by (cases c) auto

lemma between_col:
  assumes "between (map (\<lambda>(i, r). (i, g r)) rs) lo hi = Inr m"
  shows "m = map (\<lambda>(i, r). in_range lo hi (g r)) rs"
proof -
  from assms have eq: "map (\<lambda>(i, r). between_cell lo hi (g r)) rs = map Inr m"
    by (simp add: between_def collect_eq_Inr case_prod_unfold comp_def)
  then have len: "length m = length rs"
    by (metis length_map)
  show ?thesis
  proof (rule nth_equalityI)
    show "length m = length (map (\<lambda>(i, r). in_range lo hi (g r)) rs)"
      using len by simp
  next
    fix k assume k: "k < length m"
    from eq have "map (\<lambda>(i, r). between_cell lo hi (g r)) rs ! k = map Inr m ! k"
      by simp
    with k len have "between_cell lo hi (g (snd (rs ! k))) = Inr (m ! k)"
      by (simp add: case_prod_unfold)
    then have "m ! k = in_range lo hi (g (snd (rs ! k)))"
      by (rule between_cell_Inr)
    with k len show "m ! k = map (\<lambda>(i, r). in_range lo hi (g r)) rs ! k"
      by (simp add: case_prod_unfold)
  qed
qed

lemma between_total:
  assumes "\<forall>x \<in> set rs. g (snd x) = NA \<or> (\<exists>q. g (snd x) = Num q)"
  shows "between (map (\<lambda>(i, r). (i, g r)) rs) lo hi
           = Inr (map (\<lambda>(i, r). in_range lo hi (g r)) rs)"
proof -
  have "map (\<lambda>(i, r). between_cell lo hi (g r)) rs
          = map Inr (map (\<lambda>(i, r). in_range lo hi (g r)) rs)"
    using assms by (induction rs) (auto simp: case_prod_unfold)
  then show ?thesis
    by (simp add: between_def collect_eq_Inr case_prod_unfold comp_def)
qed

text \<open>The rows the two unconditional filters keep.\<close>

lemma titanic_filtered_df_rows:
  assumes "titanic_filtered_df df gf cf lo hi = Inr out"
  shows "out = df\<lparr>rows := filter (\<lambda>(i, r).
            cell_of df ''Sex'' r \<in> set gf \<and> cell_of df ''Pclass'' r \<in> set cf \<and>
            (in_range lo hi (cell_of df ''Age'' r) \<or> cell_of df ''Age'' r = NA)) (rows df)\<rparr>"
proof -
  from assms obtain sex pclass age m where
    sex: "getcol df ''Sex'' = Inr sex" and pclass: "getcol df ''Pclass'' = Inr pclass" and
    age: "getcol df ''Age'' = Inr age" and m: "between age lo hi = Inr m" and
    out: "out = select_rows df
            (mask_and (mask_and (isin sex gf) (isin pclass cf)) (mask_or m (isna age)))"
    unfolding titanic_filtered_df_def bind_res_eq_Inr by auto
  from m age have m': "m = map (\<lambda>(i, r). in_range lo hi (cell_of df ''Age'' r)) (rows df)"
    by (auto simp: getcol_Inr intro: between_col)
  show ?thesis
    using sex pclass age unfolding out m' getcol_Inr
    by (simp add: isin_col isna_col mask_and_map mask_or_map select_rows_map case_prod_unfold)
qed

lemma netflix_filtered_df_rows:
  assumes "netflix_filtered_df df tf lo hi rf = Inr out"
  shows "out = df\<lparr>rows := filter (\<lambda>(i, r).
            cell_of df ''type'' r \<in> set tf \<and> in_range lo hi (cell_of df ''release_year'' r) \<and>
            (cell_of df ''rating'' r \<in> set rf \<or> cell_of df ''rating'' r = NA)) (rows df)\<rparr>"
proof -
  from assms obtain ty yr m rating where
    ty: "getcol df ''type'' = Inr ty" and yr: "getcol df ''release_year'' = Inr yr" and
    m: "between yr lo hi = Inr m" and rating: "getcol df ''rating'' = Inr rating" and
    out: "out = select_rows df
            (mask_and (mask_and (isin ty tf) m) (mask_or (isin rating rf) (isna rating)))"
    unfolding netflix_filtered_df_def bind_res_eq_Inr by auto
  from m yr have m': "m = map (\<lambda>(i, r). in_range lo hi (cell_of df ''release_year'' r)) (rows df)"
    by (auto simp: getcol_Inr intro: between_col)
  show ?thesis
    using ty yr rating unfolding out m' getcol_Inr
    by (simp add: isin_col isna_col mask_and_map mask_or_map select_rows_map case_prod_unfold)
qed

lemma select_rows_all:
  assumes "\<forall>x \<in> set (rows df). f x"
  shows "select_rows df (map f (rows df)) = df"
proof -
  from assms have "filter f (rows df) = rows df"
    by (simp add: filter_id_conv)
  then show ?thesis
    by (simp add: select_rows_map)
qed

lemma set_unique [simp]: "set (unique s) = snd ` set s"
  by (simp add: unique_def)

lemma columns_select_rows [simp]: "columns (select_rows df m) = columns df"
  by (simp add: select_rows_def)

lemma isin_step_present:
  assumes "c \<in> set (columns df)"
  shows "isin_step c df sel
           = Inr (df\<lparr>rows := filter (\<lambda>(i, r). cell_of df c r \<in> set sel) (rows df)\<rparr>)"
proof -
  have "isin (map (\<lambda>p. (fst p, cell_of df c (snd p))) (rows df)) sel
          = map (\<lambda>p. cell_of df c (snd p) \<in> set sel) (rows df)"
    by (rule isin_col)
  then show ?thesis
    using assms by (simp add: isin_step_def getcol_def case_prod_unfold select_rows_map)
qed

lemma isin_step_absent: "c \<notin> set (columns df) \<Longrightarrow> isin_step c df sel = Inr df"
  by (simp add: isin_step_def)

lemma isin_step_columns: "isin_step c df sel = Inr out \<Longrightarrow> columns out = columns df"
  by (cases "c \<in> set (columns df)") (auto simp: isin_step_present isin_step_absent)

lemma date_step_absent: "''Date'' \<notin> set (columns df) \<Longrightarrow> date_step df dr = Inr df"
  by (simp add: date_step_def)

lemma date_step_columns: "date_step df dr = Inr out \<Longrightarrow> columns out = columns df"
  by (auto simp: date_step_def bind_res_eq_Inr split: if_splits list.splits)




text \<open>The date filter keeps every row when every Date cell is a timestamp in range.\<close>

lemma dt_date_all_timestamps:
  assumes "\<forall>x \<in> set rs. \<exists>t. g (snd x) = Ts t"
  shows "dt_date (map (\<lambda>p. (fst p, g (snd p))) rs)
           = Inr (map (\<lambda>p. case g (snd p) of Ts t \<Rightarrow> Some (ts_date t) | _ \<Rightarrow> None) rs)"
proof -
  have "map (\<lambda>p. dt_date_cell (g (snd p))) rs
          = map Inr (map (\<lambda>p. case g (snd p) of Ts t \<Rightarrow> Some (ts_date t) | _ \<Rightarrow> None) rs)"
    using assms by (induction rs) auto
  then show ?thesis
    by (simp add: dt_date_def collect_eq_Inr case_prod_unfold comp_def)
qed

lemma date_step_all:
  assumes "dates_within df lo hi"
  shows "date_step df [lo, hi] = Inr df"
proof (cases "''Date'' \<in> set (columns df)")
  case False
  then show ?thesis by (rule date_step_absent)
next
  case True
  let ?g = "cell_of df ''Date''"
  let ?d = "\<lambda>p. case ?g (snd p) of Ts t \<Rightarrow> Some (ts_date t) | _ \<Rightarrow> None"
  from assms have each: "\<forall>x \<in> set (rows df).
      (case ?g (snd x) of Ts t \<Rightarrow> date_le lo (ts_date t) \<and> date_le (ts_date t) hi | _ \<Rightarrow> False)"
    by (simp add: dates_within_def list_all_iff case_prod_unfold)
  have ts: "\<forall>x \<in> set (rows df). \<exists>t. ?g (snd x) = Ts t"
  proof
    fix x assume "x \<in> set (rows df)"
    with each show "\<exists>t. ?g (snd x) = Ts t"
      by (cases "?g (snd x)") force+
  qed
  have ok: "\<forall>x \<in> set (rows df).
      (case ?d x of None \<Rightarrow> False | Some v \<Rightarrow> date_le lo v) \<and>
      (case ?d x of None \<Rightarrow> False | Some v \<Rightarrow> date_le v hi)"
  proof
    fix x assume "x \<in> set (rows df)"
    with each show "(case ?d x of None \<Rightarrow> False | Some v \<Rightarrow> date_le lo v) \<and>
      (case ?d x of None \<Rightarrow> False | Some v \<Rightarrow> date_le v hi)"
      by (cases "?g (snd x)") force+
  qed
  have col: "getcol df ''Date'' = Inr (map (\<lambda>p. (fst p, ?g (snd p))) (rows df))"
    using True by (simp add: getcol_def case_prod_unfold)
  have dd: "dt_date (map (\<lambda>p. (fst p, ?g (snd p))) (rows df)) = Inr (map ?d (rows df))"
    using ts by (rule dt_date_all_timestamps)
  have "mask_and (date_ge (map ?d (rows df)) lo) (date_leq (map ?d (rows df)) hi)
          = map (\<lambda>x. (case ?d x of None \<Rightarrow> False | Some v \<Rightarrow> date_le lo v) \<and>
                     (case ?d x of None \<Rightarrow> False | Some v \<Rightarrow> date_le v hi)) (rows df)"
    by (simp add: date_ge_def date_leq_def comp_def mask_and_map)
  moreover have "select_rows df (map (\<lambda>x. (case ?d x of None \<Rightarrow> False | Some v \<Rightarrow> date_le lo v) \<and>
                     (case ?d x of None \<Rightarrow> False | Some v \<Rightarrow> date_le v hi)) (rows df)) = df"
    using ok by (rule select_rows_all)
  ultimately show ?thesis
    using True col dd by (simp add: date_step_def)
qed

lemma date_step_not_a_range: "length dr \<noteq> 2 \<Longrightarrow> date_step df dr = Inr df"
  by (auto simp: date_step_def split: list.splits)

lemma isin_step_all:
  assumes "\<forall>s. getcol df c = Inr s \<longrightarrow> set (unique s) \<subseteq> set sel"
  shows "isin_step c df sel = Inr df"
proof (cases "c \<in> set (columns df)")
  case False
  then show ?thesis by (rule isin_step_absent)
next
  case True
  with assms have "\<forall>x \<in> set (rows df). cell_of df c (snd x) \<in> set sel"
    by (force simp: getcol_def)
  then have "filter (\<lambda>(i, r). cell_of df c r \<in> set sel) (rows df) = rows df"
    by (simp add: filter_id_conv case_prod_unfold)
  with True show ?thesis
    by (simp add: isin_step_present)
qed

lemma titanic_filtered_df_all:
  assumes sex: "getcol df ''Sex'' = Inr sex" and pclass: "getcol df ''Pclass'' = Inr pclass"
    and age: "getcol df ''Age'' = Inr age"
    and gf: "set (unique sex) \<subseteq> set gf" and cf: "set (unique pclass) \<subseteq> set cf"
    and ages: "\<forall>c \<in> set (unique age). c = NA \<or> in_range lo hi c"
  shows "titanic_filtered_df df gf cf lo hi = Inr df"
proof -
  let ?keep = "\<lambda>p. (cell_of df ''Sex'' (snd p) \<in> set gf \<and> cell_of df ''Pclass'' (snd p) \<in> set cf) \<and>
                    (in_range lo hi (cell_of df ''Age'' (snd p)) \<or> cell_of df ''Age'' (snd p) = NA)"
  from sex have sex': "sex = map (\<lambda>p. (fst p, cell_of df ''Sex'' (snd p))) (rows df)"
    by (simp add: getcol_Inr case_prod_unfold)
  from pclass have pclass': "pclass = map (\<lambda>p. (fst p, cell_of df ''Pclass'' (snd p))) (rows df)"
    by (simp add: getcol_Inr case_prod_unfold)
  from age have age': "age = map (\<lambda>p. (fst p, cell_of df ''Age'' (snd p))) (rows df)"
    by (simp add: getcol_Inr case_prod_unfold)
  have num: "\<forall>x \<in> set (rows df). cell_of df ''Age'' (snd x) = NA \<or> (\<exists>q. cell_of df ''Age'' (snd x) = Num q)"
  proof
    fix x assume "x \<in> set (rows df)"
    then have "cell_of df ''Age'' (snd x) \<in> set (unique age)"
      by (force simp: age')
    with ages have "cell_of df ''Age'' (snd x) = NA \<or> in_range lo hi (cell_of df ''Age'' (snd x))"
      by blast
    then show "cell_of df ''Age'' (snd x) = NA \<or> (\<exists>q. cell_of df ''Age'' (snd x) = Num q)"
      by (cases "cell_of df ''Age'' (snd x)") auto
  qed
  have btw: "between age lo hi = Inr (map (\<lambda>p. in_range lo hi (cell_of df ''Age'' (snd p))) (rows df))"
    using between_total [OF num, of lo hi] by (simp add: age' case_prod_unfold)
  have keep: "\<forall>x \<in> set (rows df). ?keep x"
  proof
    fix x assume x: "x \<in> set (rows df)"
    then have "cell_of df ''Sex'' (snd x) \<in> set (unique sex)"
      and "cell_of df ''Pclass'' (snd x) \<in> set (unique pclass)"
      and "cell_of df ''Age'' (snd x) \<in> set (unique age)"
      by (force simp: sex' pclass' age')+
    with gf cf ages show "?keep x" by blast
  qed
  have "mask_and (mask_and (isin sex gf) (isin pclass cf))
          (mask_or (map (\<lambda>p. in_range lo hi (cell_of df ''Age'' (snd p))) (rows df)) (isna age))
        = map ?keep (rows df)"
    by (simp add: sex' pclass' age' isin_col isna_col mask_and_map mask_or_map)
  moreover have "select_rows df (map ?keep (rows df)) = df"
    using keep by (rule select_rows_all)
  ultimately show ?thesis
    using sex pclass age btw by (simp add: titanic_filtered_df_def)
qed

text \<open>Splitting: there is always a piece, and the pieces joined by the separator are
  the text that was split.\<close>

lemma split_from_nonempty: "split_from sep acc s \<noteq> []"
  by (induction sep acc s rule: split_from.induct) auto

lemma join_Cons_nonempty: "ps \<noteq> [] \<Longrightarrow> join sep (x # ps) = x @ sep @ join sep ps"
  by (cases ps) simp_all

lemma join_split_from: "join sep (split_from sep acc s) = rev acc @ s"
proof (induction sep acc s rule: split_from.induct)
  case (1 sep acc)
  show ?case by simp
next
  case (2 sep acc c cs)
  show ?case
  proof (cases "sep \<noteq> [] \<and> take (length sep) (c # cs) = sep")
    case True
    then have "join sep (split_from sep [] (drop (length sep) (c # cs)))
                 = drop (length sep) (c # cs)"
      using "2.IH"(1) by simp
    moreover from True have "sep @ drop (length sep) (c # cs) = c # cs"
      by (metis append_take_drop_id)
    ultimately show ?thesis
      using True by (simp add: join_Cons_nonempty split_from_nonempty del: drop_Suc_Cons take_Suc_Cons)
  next
    case False
    then have "split_from sep acc (c # cs) = split_from sep (c # acc) cs"
      by auto
    with False "2.IH"(2) show ?thesis by simp
  qed
qed

lemma join_py_split: "join sep (py_split sep s) = s"
  by (simp add: py_split_def join_split_from)

lemma py_split_nonempty: "py_split sep s \<noteq> []"
  by (simp add: py_split_def split_from_nonempty)

lemma explode_entry_py_split:
  "explode_entry (i, Some (py_split sep x)) = map (\<lambda>v. (i, Str v)) (py_split sep x)"
  by (cases "py_split sep x") (simp_all add: py_split_nonempty)

lemma explode_str_split:
  "str_split s sep = Inr l \<Longrightarrow> explode l = concat (map (exploded sep) s)"
proof (induction s arbitrary: l)
  case Nil
  then show ?case by (simp add: str_split_def explode_def)
next
  case (Cons e s)
  obtain i c where e: "e = (i, c)" by (cases e)
  from Cons.prems obtain v l' where
    v: "str_split_cell sep c = Inr v" and l': "str_split s sep = Inr l'" and l: "l = (i, v) # l'"
    by (auto simp: str_split_def e split: sum.splits)
  have "explode_entry (i, v) = exploded sep (i, c)"
    using v by (cases c) (auto simp: explode_entry_py_split)
  moreover have "explode l' = concat (map (exploded sep) s)"
    using l' by (rule Cons.IH)
  ultimately show ?case
    by (simp add: l e explode_def)
qed

lemma concat_map_filter:
  "concat (map f (filter P xs)) = concat (map (\<lambda>x. if P x then f x else []) xs)"
  by (induction xs) simp_all

lemma dropna_exploded:
  "dropna (concat (map (exploded sep) s))
     = concat (map (\<lambda>e. case snd e of Str x \<Rightarrow> map (\<lambda>v. (fst e, Str v)) (py_split sep x)
                                   | _ \<Rightarrow> []) s)"
proof (induction s)
  case Nil
  show ?case by (simp add: dropna_def)
next
  case (Cons e s)
  obtain i c where e: "e = (i, c)" by (cases e)
  have "filter (\<lambda>(i, c). c \<noteq> NA) (exploded sep (i, c))
          = (case c of Str x \<Rightarrow> map (\<lambda>v. (i, Str v)) (py_split sep x) | _ \<Rightarrow> [])"
    by (cases c) (simp_all add: filter_id_conv)
  with Cons.IH show ?case
    by (simp add: dropna_def e split: cell.splits)
qed

lemma str_split_texts:
  "str_split s sep = Inr l \<Longrightarrow> e \<in> set s \<Longrightarrow> snd e = NA \<or> (\<exists>x. snd e = Str x)"
proof (induction s arbitrary: l)
  case Nil
  then show ?case by simp
next
  case (Cons a s)
  obtain i c where a: "a = (i, c)" by (cases a)
  from Cons.prems(1) obtain v l' where
    v: "str_split_cell sep c = Inr v" and l': "str_split s sep = Inr l'"
    by (auto simp: str_split_def a split: sum.splits)
  show ?case
  proof (cases "e = a")
    case True
    with v a show ?thesis by (cases c) auto
  next
    case False
    with Cons.prems(2) have "e \<in> set s" by simp
    with l' show ?thesis by (rule Cons.IH)
  qed
qed

lemma exploded_unfold:
  "exploded sep e = (case snd e of Str x \<Rightarrow> map (\<lambda>v. (fst e, Str v)) (py_split sep x)
                                | _ \<Rightarrow> [(fst e, NA)])"
  by (cases e; cases "snd e") auto

lemma countries_series_entries:
  assumes "countries_series df = Inr out"
  shows "out = concat (map (\<lambda>(i, r). case cell_of df ''country'' r of
                                     Str x \<Rightarrow> map (\<lambda>v. (i, Str v)) (py_split '', '' x)
                                   | _ \<Rightarrow> []) (rows df))"
proof -
  from assms obtain s l where s: "getcol df ''country'' = Inr s"
    and l: "str_split (dropna s) '', '' = Inr l" and out: "out = explode l"
    by (auto simp: countries_series_def bind_res_eq_Inr)
  from l have "explode l = concat (map (exploded '', '') (dropna s))"
    by (rule explode_str_split)
  also have "\<dots> = concat (map (\<lambda>e. if snd e \<noteq> NA then exploded '', '' e else []) s)"
    by (simp add: dropna_def concat_map_filter case_prod_unfold)
  finally have eq: "out = concat (map (\<lambda>e. if snd e \<noteq> NA then exploded '', '' e else []) s)"
    by (simp add: out)
  have "(if snd e \<noteq> NA then exploded '', '' e else [])
          = (case snd e of Str x \<Rightarrow> map (\<lambda>v. (fst e, Str v)) (py_split '', '' x) | _ \<Rightarrow> [])"
    if "e \<in> set s" for e
  proof (cases "snd e = NA")
    case True
    then show ?thesis by simp
  next
    case False
    with that have "e \<in> set (dropna s)"
      by (simp add: dropna_def case_prod_unfold)
    with l have "snd e = NA \<or> (\<exists>x. snd e = Str x)"
      by (rule str_split_texts)
    with False obtain x where "snd e = Str x" by blast
    then show ?thesis by (simp add: exploded_unfold)
  qed
  then have "map (\<lambda>e. if snd e \<noteq> NA then exploded '', '' e else []) s
          = map (\<lambda>e. case snd e of Str x \<Rightarrow> map (\<lambda>v. (fst e, Str v)) (py_split '', '' x)
                                 | _ \<Rightarrow> []) s"
    by simp
  with eq have "out = concat (map (\<lambda>e. case snd e of
                        Str x \<Rightarrow> map (\<lambda>v. (fst e, Str v)) (py_split '', '' x) | _ \<Rightarrow> []) s)"
    by simp
  moreover from s have "s = map (\<lambda>p. (fst p, cell_of df ''country'' (snd p))) (rows df)"
    by (simp add: getcol_Inr case_prod_unfold)
  ultimately show ?thesis
    by (simp add: comp_def case_prod_unfold cong: cell.case_cong)
qed

lemma genres_entries:
  assumes "genres df = Inr out"
  shows "out = concat (map (\<lambda>(i, r). case cell_of df ''listed_in'' r of
                                      Str x \<Rightarrow> map (\<lambda>v. (i, Str v)) (py_split '', '' x)
                                    | _ \<Rightarrow> [(i, NA)]) (rows df))"
    and "dropna out = concat (map (\<lambda>(i, r). case cell_of df ''listed_in'' r of
                                      Str x \<Rightarrow> map (\<lambda>v. (i, Str v)) (py_split '', '' x)
                                    | _ \<Rightarrow> []) (rows df))"
proof -
  from assms obtain s l where s: "getcol df ''listed_in'' = Inr s"
    and l: "str_split s '', '' = Inr l" and out: "out = explode l"
    by (auto simp: genres_def bind_res_eq_Inr)
  from l have eq: "out = concat (map (exploded '', '') s)"
    unfolding out by (rule explode_str_split)
  from s have s': "s = map (\<lambda>p. (fst p, cell_of df ''listed_in'' (snd p))) (rows df)"
    by (simp add: getcol_Inr case_prod_unfold)
  have "map (exploded '', '') s
          = map (\<lambda>e. case snd e of Str x \<Rightarrow> map (\<lambda>v. (fst e, Str v)) (py_split '', '' x)
                                 | _ \<Rightarrow> [(fst e, NA)]) s"
    by (simp add: exploded_unfold)
  with eq have "out = concat (map (\<lambda>e. case snd e of
                  Str x \<Rightarrow> map (\<lambda>v. (fst e, Str v)) (py_split '', '' x) | _ \<Rightarrow> [(fst e, NA)]) s)"
    by simp
  then show "out = concat (map (\<lambda>(i, r). case cell_of df ''listed_in'' r of
                                      Str x \<Rightarrow> map (\<lambda>v. (i, Str v)) (py_split '', '' x)
                                    | _ \<Rightarrow> [(i, NA)]) (rows df))"
    unfolding s' by (simp add: comp_def case_prod_unfold cong: cell.case_cong)
  have "dropna out = concat (map (\<lambda>e. case snd e of
                 Str x \<Rightarrow> map (\<lambda>v. (fst e, Str v)) (py_split '', '' x) | _ \<Rightarrow> []) s)"
    by (simp add: eq dropna_exploded)
  then show "dropna out = concat (map (\<lambda>(i, r). case cell_of df ''listed_in'' r of
                                      Str x \<Rightarrow> map (\<lambda>v. (i, Str v)) (py_split '', '' x)
                                    | _ \<Rightarrow> []) (rows df))"
    unfolding s' by (simp add: comp_def case_prod_unfold cong: cell.case_cong)
qed














text \<open>Sorting the keys neither loses nor repeats one.\<close>

lemma set_insort_cell [simp]: "set (insort_cell c xs) = insert c (set xs)"
  by (induction xs) auto

lemma distinct_insort_cell [simp]: "distinct (insort_cell c xs) \<longleftrightarrow> c \<notin> set xs \<and> distinct xs"
  by (induction xs) auto

lemma set_sort_cells [simp]: "set (sort_cells cs) = set cs"
  unfolding sort_cells_def by (induction cs) simp_all

lemma distinct_sort_cells [simp]: "distinct (sort_cells cs) \<longleftrightarrow> distinct cs"
  unfolding sort_cells_def by (induction cs) (simp_all add: set_sort_cells [unfolded sort_cells_def])

lemma distinct_unique [simp]: "distinct (unique s)"
  by (simp add: unique_def)

lemma set_group_keys: "set (group_keys s) = snd ` set s - {NA}"
  by (auto simp: group_keys_def dropna_def)

lemma distinct_group_keys: "distinct (group_keys s)"
  by (simp add: group_keys_def)

lemma length_group_keys: "length (group_keys s) = card (snd ` set s - {NA})"
  using distinct_card [OF distinct_group_keys, of s] by (simp add: set_group_keys)

lemma collect_map_fst:
  assumes "collect (map g ks) = Inr tbl" and "\<And>k y. g k = Inr y \<Longrightarrow> fst y = k"
  shows "map fst tbl = ks"
  using assms(1)
proof (induction ks arbitrary: tbl)
  case Nil
  then show ?case by simp
next
  case (Cons k ks)
  from Cons.prems obtain y tbl' where y: "g k = Inr y" and t: "collect (map g ks) = Inr tbl'"
    and tbl: "tbl = y # tbl'"
    by (auto split: sum.splits)
  from y have "fst y = k" by (rule assms(2))
  moreover from t have "map fst tbl' = ks" by (rule Cons.IH)
  ultimately show ?case by (simp add: tbl)
qed

lemma getcol_cells:
  "getcol df c = Inr s \<Longrightarrow> snd ` set s = (\<lambda>(i, r). cell_of df c r) ` set (rows df)"
  by (force simp: getcol_Inr)

lemma stats_keys:
  assumes "stats df = Inr tbl"
  shows "\<exists>keys. getcol df ''type'' = Inr keys \<and> map fst tbl = group_keys keys"
proof -
  from assms obtain keys where k: "getcol df ''type'' = Inr keys"
    and c: "collect (map (stats_group df) (group_keys keys)) = Inr tbl"
    by (auto simp: stats_def bind_res_eq_Inr)
  have "map fst tbl = group_keys keys"
    using c by (rule collect_map_fst) (auto simp: stats_group_def bind_res_eq_Inr)
  with k show ?thesis by blast
qed

lemma groupby_size_keys:
  assumes "groupby_size df key = Inr sizes"
  shows "\<exists>keys. getcol df key = Inr keys \<and>
           sizes = map (\<lambda>k. (k, length (group_rows df key k))) (group_keys keys)"
  using assms by (auto simp: groupby_size_def bind_res_eq_Inr)

text \<open>Positions of columns.\<close>

lemma index_of_less: "c \<in> set cols \<Longrightarrow> index_of c cols < length cols"
  by (induction cols) auto

lemma nth_index_of: "c \<in> set cols \<Longrightarrow> cols ! index_of c cols = c"
  by (induction cols) auto

lemma index_of_notin: "c \<notin> set cols \<Longrightarrow> index_of c cols = length cols"
  by (induction cols) auto

lemma index_of_append: "c \<in> set cols \<Longrightarrow> index_of c (cols @ ys) = index_of c cols"
  by (induction cols) auto

lemma index_of_distinct:
  "c \<in> set cols \<Longrightarrow> c' \<in> set cols \<Longrightarrow> c \<noteq> c' \<Longrightarrow> index_of c cols \<noteq> index_of c' cols"
  by (metis nth_index_of)

lemma set_cols_with [simp]: "set (cols_with cols c) = insert c (set cols)"
  by (auto simp: cols_with_def)

text \<open>Writing one cell of a row: the cell written is read back, the others are as they
  were, and the row keeps one cell per column.\<close>

lemma length_set_cell:
  "length r = length cols \<Longrightarrow> length (set_cell cols c r v) = length (cols_with cols c)"
  by (simp add: set_cell_def cols_with_def)

lemma index_of_append_new: "c \<notin> set cols \<Longrightarrow> index_of c (cols @ [c]) = length cols"
  by (induction cols) auto

lemma cell_at_set_cell_same:
  "length r = length cols \<Longrightarrow> cell_at (set_cell cols c r v) (index_of c (cols_with cols c)) = v"
  by (auto simp: set_cell_def cols_with_def cell_at_def index_of_less index_of_append_new
                 nth_append)

lemma cell_at_set_cell_other:
  assumes "length r = length cols" and "c' \<in> set cols" and "c' \<noteq> c"
  shows "cell_at (set_cell cols c r v) (index_of c' (cols_with cols c))
           = cell_at r (index_of c' cols)"
proof (cases "c \<in> set cols")
  case True
  with assms have "index_of c cols \<noteq> index_of c' cols"
    by (metis index_of_distinct)
  with True assms show ?thesis
    by (simp add: set_cell_def cols_with_def cell_at_def)
next
  case False
  from assms have "index_of c' cols < length cols"
    by (simp add: index_of_less)
  with False assms show ?thesis
    by (simp add: set_cell_def cols_with_def cell_at_def index_of_append nth_append)
qed

lemma columns_setcol [simp]: "columns (setcol df c vs) = cols_with (columns df) c"
  by (simp add: setcol_def cols_with_def)

lemma rows_setcol:
  "rows (setcol df c vs) = map (\<lambda>((i, r), v). (i, set_cell (columns df) c r v)) (zip (rows df) vs)"
  by (simp add: setcol_def)

lemma wf_df_setcol: "wf_df df \<Longrightarrow> wf_df (setcol df c vs)"
  by (auto simp: wf_df_def rows_setcol length_set_cell dest!: set_zip_leftD)

text \<open>What a row of the frame after \<open>df[target] = f(df[source])\<close> looks like.\<close>

lemma map_column_Inr:
  assumes "map_column target source f df = Inr out"
  shows "\<exists>vs. source \<in> set (columns df) \<and> length vs = length (rows df) \<and>
           (\<forall>k < length (rows df). f (cell_of df source (snd (rows df ! k))) = Inr (vs ! k)) \<and>
           out = setcol df target vs"
proof -
  from assms obtain s vs where s: "getcol df source = Inr s"
    and c: "collect (map (\<lambda>(i, c). f c) s) = Inr vs" and out: "out = setcol df target vs"
    by (auto simp: map_column_def bind_res_eq_Inr)
  from s have src: "source \<in> set (columns df)"
    and s': "s = map (\<lambda>p. (fst p, cell_of df source (snd p))) (rows df)"
    by (simp_all add: getcol_Inr case_prod_unfold)
  from c have eq: "map (\<lambda>p. f (cell_of df source (snd p))) (rows df) = map Inr vs"
    by (simp add: collect_eq_Inr s' comp_def case_prod_unfold)
  then have len: "length vs = length (rows df)"
    by (metis length_map)
  have "\<forall>k < length (rows df). f (cell_of df source (snd (rows df ! k))) = Inr (vs ! k)"
  proof (intro allI impI)
    fix k assume k: "k < length (rows df)"
    from eq have "map (\<lambda>p. f (cell_of df source (snd p))) (rows df) ! k = map Inr vs ! k"
      by simp
    with k len show "f (cell_of df source (snd (rows df ! k))) = Inr (vs ! k)"
      by simp
  qed
  with src len out show ?thesis by blast
qed

lemma setcol_row:
  assumes wf: "wf_df df" and len: "length vs = length (rows df)"
    and mem: "(i, r') \<in> set (rows (setcol df target vs))"
  shows "\<exists>k r. k < length (rows df) \<and> rows df ! k = (i, r) \<and>
           cell_of (setcol df target vs) target r' = vs ! k \<and>
           (\<forall>c \<in> set (columns df). c \<noteq> target \<longrightarrow>
               cell_of (setcol df target vs) c r' = cell_of df c r)"
proof -
  from mem obtain k where k: "k < length (zip (rows df) vs)"
    and rk: "(i, r') = (\<lambda>((i, r), v). (i, set_cell (columns df) target r v)) (zip (rows df) vs ! k)"
    unfolding rows_setcol by (metis (no_types, lifting) in_set_conv_nth length_map nth_map)
  from k len have k': "k < length (rows df)" by simp
  obtain j r where row: "rows df ! k = (j, r)" by (cases "rows df ! k")
  from rk k' len row have ij: "i = j" and r': "r' = set_cell (columns df) target r (vs ! k)"
    by simp_all
  from k' row have "(j, r) \<in> set (rows df)"
    by (metis nth_mem)
  with wf have lr: "length r = length (columns df)"
    by (auto simp: wf_df_def)
  have a: "cell_of (setcol df target vs) target r' = vs ! k"
    using lr by (simp add: cell_of_def r' cell_at_set_cell_same)
  have b: "\<forall>c \<in> set (columns df). c \<noteq> target \<longrightarrow>
               cell_of (setcol df target vs) c r' = cell_of df c r"
    using lr by (simp add: cell_of_def r' cell_at_set_cell_other)
  from k' row ij a b show ?thesis by blast
qed

lemma map_column_row:
  assumes wf: "wf_df df" and m: "map_column target source f df = Inr out"
    and mem: "(i, r') \<in> set (rows out)"
  shows "\<exists>r. (i, r) \<in> set (rows df) \<and> f (cell_of df source r) = Inr (cell_of out target r') \<and>
           (\<forall>c \<in> set (columns df). c \<noteq> target \<longrightarrow> cell_of out c r' = cell_of df c r)"
proof -
  from m obtain vs where len: "length vs = length (rows df)"
    and f: "\<forall>k < length (rows df). f (cell_of df source (snd (rows df ! k))) = Inr (vs ! k)"
    and out: "out = setcol df target vs"
    using map_column_Inr by blast
  from setcol_row [OF wf len mem [unfolded out]] obtain k r where
    k: "k < length (rows df)" and row: "rows df ! k = (i, r)"
    and a: "cell_of out target r' = vs ! k"
    and b: "\<forall>c \<in> set (columns df). c \<noteq> target \<longrightarrow> cell_of out c r' = cell_of df c r"
    unfolding out by blast
  from k row have "(i, r) \<in> set (rows df)" by (metis nth_mem)
  moreover from f k row a have "f (cell_of df source r) = Inr (cell_of out target r')"
    by (metis snd_conv)
  ultimately show ?thesis using b by blast
qed

lemma map_column_wf: "wf_df df \<Longrightarrow> map_column target source f df = Inr out \<Longrightarrow> wf_df out"
  using map_column_Inr wf_df_setcol by blast

lemma map_column_columns:
  "map_column target source f df = Inr out \<Longrightarrow> set (columns out) = insert target (set (columns df))"
  using map_column_Inr [of target source f df out] by auto

lemma map_column_source:
  "map_column target source f df = Inr out \<Longrightarrow> source \<in> set (columns df)"
  using map_column_Inr by blast

lemma map_column_derives:
  assumes "wf_df df" and "map_column target source f df = Inr out" and "target \<noteq> source"
  shows "derived out target source f"
  unfolding derived_def
proof (intro ballI, clarify)
  fix i r' assume "(i, r') \<in> set (rows out)"
  with assms(1,2) obtain r where f: "f (cell_of df source r) = Inr (cell_of out target r')"
    and b: "\<forall>c \<in> set (columns df). c \<noteq> target \<longrightarrow> cell_of out c r' = cell_of df c r"
    using map_column_row by blast
  from assms(2) have "source \<in> set (columns df)" by (rule map_column_source)
  with b assms(3) have "cell_of out source r' = cell_of df source r" by auto
  with f show "f (cell_of out source r') = Inr (cell_of out target r')" by simp
qed

lemma map_column_keeps_derived:
  assumes "wf_df df" and "map_column target source f df = Inr out"
    and "derived df t s g" and "t \<in> set (columns df)" and "s \<in> set (columns df)"
    and "target \<noteq> t" and "target \<noteq> s"
  shows "derived out t s g"
  unfolding derived_def
proof (intro ballI, clarify)
  fix i r' assume "(i, r') \<in> set (rows out)"
  with assms(1,2) obtain r where r: "(i, r) \<in> set (rows df)"
    and b: "\<forall>c \<in> set (columns df). c \<noteq> target \<longrightarrow> cell_of out c r' = cell_of df c r"
    using map_column_row by blast
  from b assms(4-7) have "cell_of out t r' = cell_of df t r" "cell_of out s r' = cell_of df s r"
    by auto
  moreover from r assms(3) have "g (cell_of df s r) = Inr (cell_of df t r)"
    by (auto simp: derived_def)
  ultimately show "g (cell_of out s r') = Inr (cell_of out t r')" by simp
qed

lemma zip_map_same: "zip (map g xs) (map h xs) = map (\<lambda>p. (g p, h p)) xs"
  by (induction xs) simp_all

lemma map_column2_Inr:
  assumes "map_column2 target s1 s2 f df = Inr out"
  shows "\<exists>vs. s1 \<in> set (columns df) \<and> s2 \<in> set (columns df) \<and> length vs = length (rows df) \<and>
           (\<forall>k < length (rows df).
               f (cell_of df s1 (snd (rows df ! k))) (cell_of df s2 (snd (rows df ! k)))
                 = Inr (vs ! k)) \<and>
           out = setcol df target vs"
proof -
  from assms obtain a b vs where a: "getcol df s1 = Inr a" and b: "getcol df s2 = Inr b"
    and c: "collect (map (\<lambda>((i, a), (j, b)). f a b) (zip a b)) = Inr vs"
    and out: "out = setcol df target vs"
    by (auto simp: map_column2_def bind_res_eq_Inr)
  from a have m1: "s1 \<in> set (columns df)"
    and a': "a = map (\<lambda>p. (fst p, cell_of df s1 (snd p))) (rows df)"
    by (simp_all add: getcol_Inr case_prod_unfold)
  from b have m2: "s2 \<in> set (columns df)"
    and b': "b = map (\<lambda>p. (fst p, cell_of df s2 (snd p))) (rows df)"
    by (simp_all add: getcol_Inr case_prod_unfold)
  have z: "zip a b = map (\<lambda>p. ((fst p, cell_of df s1 (snd p)), (fst p, cell_of df s2 (snd p))))
                       (rows df)"
    unfolding a' b' by (rule zip_map_same)
  from c have eq: "map (\<lambda>p. f (cell_of df s1 (snd p)) (cell_of df s2 (snd p))) (rows df) = map Inr vs"
    by (simp add: collect_eq_Inr z comp_def case_prod_unfold)
  then have len: "length vs = length (rows df)"
    by (metis length_map)
  have "\<forall>k < length (rows df).
          f (cell_of df s1 (snd (rows df ! k))) (cell_of df s2 (snd (rows df ! k))) = Inr (vs ! k)"
  proof (intro allI impI)
    fix k assume k: "k < length (rows df)"
    from eq have "map (\<lambda>p. f (cell_of df s1 (snd p)) (cell_of df s2 (snd p))) (rows df) ! k
                    = map Inr vs ! k"
      by simp
    with k len show "f (cell_of df s1 (snd (rows df ! k))) (cell_of df s2 (snd (rows df ! k)))
                       = Inr (vs ! k)"
      by simp
  qed
  with m1 m2 len out show ?thesis by blast
qed

lemma map_column2_row:
  assumes wf: "wf_df df" and m: "map_column2 target s1 s2 f df = Inr out"
    and mem: "(i, r') \<in> set (rows out)"
  shows "\<exists>r. (i, r) \<in> set (rows df) \<and>
           f (cell_of df s1 r) (cell_of df s2 r) = Inr (cell_of out target r') \<and>
           (\<forall>c \<in> set (columns df). c \<noteq> target \<longrightarrow> cell_of out c r' = cell_of df c r)"
proof -
  from m obtain vs where len: "length vs = length (rows df)"
    and f: "\<forall>k < length (rows df).
              f (cell_of df s1 (snd (rows df ! k))) (cell_of df s2 (snd (rows df ! k))) = Inr (vs ! k)"
    and out: "out = setcol df target vs"
    using map_column2_Inr by blast
  from setcol_row [OF wf len mem [unfolded out]] obtain k r where
    k: "k < length (rows df)" and row: "rows df ! k = (i, r)"
    and a: "cell_of out target r' = vs ! k"
    and b: "\<forall>c \<in> set (columns df). c \<noteq> target \<longrightarrow> cell_of out c r' = cell_of df c r"
    unfolding out by blast
  from k row have "(i, r) \<in> set (rows df)" by (metis nth_mem)
  moreover from f k row a have "f (cell_of df s1 r) (cell_of df s2 r) = Inr (cell_of out target r')"
    by (metis snd_conv)
  ultimately show ?thesis using b by blast
qed

lemma holds_intro:
  assumes "wf_df df" and "map_column t s g df = Inr out" and "t \<noteq> s"
  shows "holds out t s g"
  unfolding holds_def
  using assms map_column_wf [OF assms(1,2)] map_column_columns [OF assms(2)]
        map_column_source [OF assms(2)] map_column_derives [OF assms]
  by auto

lemma holds_step:
  assumes "holds df t s g" and "map_column target source f df = Inr out"
    and "target \<noteq> t" and "target \<noteq> s"
  shows "holds out t s g"
proof -
  from assms(1) have wf: "wf_df df" and t: "t \<in> set (columns df)" and s: "s \<in> set (columns df)"
    and d: "derived df t s g"
    by (simp_all add: holds_def)
  have "derived out t s g"
    using wf assms(2) d t s assms(3,4) by (rule map_column_keeps_derived)
  moreover have "wf_df out"
    using wf assms(2) by (rule map_column_wf)
  moreover have "set (columns out) = insert target (set (columns df))"
    using assms(2) by (rule map_column_columns)
  ultimately show ?thesis
    using t s by (simp add: holds_def)
qed

lemma holds_step2:
  assumes "holds df t s g" and "map_column2 target s1 s2 f df = Inr out"
    and "target \<noteq> t" and "target \<noteq> s"
  shows "derived out t s g"
  unfolding derived_def
proof (intro ballI, clarify)
  from assms(1) have wf: "wf_df df" and t: "t \<in> set (columns df)" and s: "s \<in> set (columns df)"
    and d: "derived df t s g"
    by (simp_all add: holds_def)
  fix i r' assume "(i, r') \<in> set (rows out)"
  with wf assms(2) obtain r where r: "(i, r) \<in> set (rows df)"
    and b: "\<forall>c \<in> set (columns df). c \<noteq> target \<longrightarrow> cell_of out c r' = cell_of df c r"
    using map_column2_row by blast
  from b t s assms(3,4) have "cell_of out t r' = cell_of df t r" "cell_of out s r' = cell_of df s r"
    by auto
  moreover from r d have "g (cell_of df s r) = Inr (cell_of df t r)"
    by (auto simp: derived_def)
  ultimately show "g (cell_of out s r') = Inr (cell_of out t r')" by simp
qed

lemma map_column2_derives:
  assumes "wf_df df" and "map_column2 target s1 s2 f df = Inr out"
    and "target \<noteq> s1" and "target \<noteq> s2"
  shows "derived2 out target s1 s2 f"
  unfolding derived2_def
proof (intro ballI, clarify)
  fix i r' assume "(i, r') \<in> set (rows out)"
  with assms(1,2) obtain r where
    f: "f (cell_of df s1 r) (cell_of df s2 r) = Inr (cell_of out target r')"
    and b: "\<forall>c \<in> set (columns df). c \<noteq> target \<longrightarrow> cell_of out c r' = cell_of df c r"
    using map_column2_row by blast
  from assms(2) have "s1 \<in> set (columns df)" "s2 \<in> set (columns df)"
    using map_column2_Inr by blast+
  with b assms(3,4) have "cell_of out s1 r' = cell_of df s1 r" "cell_of out s2 r' = cell_of df s2 r"
    by auto
  with f show "f (cell_of out s1 r') (cell_of out s2 r') = Inr (cell_of out target r')" by simp
qed

text \<open>Dropping rows keeps a frame well formed.\<close>

lemma set_drop_dups: "set (drop_dups seen rs) \<subseteq> set rs"
  by (induction seen rs rule: drop_dups.induct) auto

lemma wf_df_drop_duplicates: "wf_df df \<Longrightarrow> wf_df (drop_duplicates df)"
  using set_drop_dups [of "[]" "rows df"] by (auto simp: wf_df_def drop_duplicates_def)

lemma wf_df_dropna_subset: "wf_df df \<Longrightarrow> dropna_subset df c = Inr out \<Longrightarrow> wf_df out"
  by (fastforce simp: wf_df_def dropna_subset_def split: if_splits)

lemma clean_data_derived:
  assumes wf: "wf_df df" and c: "clean_data parse df = Inr out"
  shows "derived out ''Year'' ''InvoiceDate'' (dt_field ts_year)"
    and "derived out ''Month'' ''InvoiceDate'' (dt_field ts_month)"
    and "derived2 out ''TotalPrice'' ''Quantity'' ''UnitPrice'' mul_cell"
proof -
  from c obtain d1 d2 d3 d4 d5 d6 where
    s1: "dropna_subset df ''CustomerID'' = Inr d1" and
    s2: "map_column ''Description'' ''Description'' (fillna_cell (Str ''No Description'')) d1 = Inr d2" and
    s3: "map_column ''CustomerID'' ''CustomerID'' astype_int_cell (drop_duplicates d2) = Inr d3" and
    s4: "map_column ''InvoiceDate'' ''InvoiceDate'' (to_datetime_cell parse) d3 = Inr d4" and
    s5: "map_column ''Year'' ''InvoiceDate'' (dt_field ts_year) d4 = Inr d5" and
    s6: "map_column ''Month'' ''InvoiceDate'' (dt_field ts_month) d5 = Inr d6" and
    s7: "map_column2 ''TotalPrice'' ''Quantity'' ''UnitPrice'' mul_cell d6 = Inr out"
    unfolding clean_data_def bind_res_eq_Inr by blast
  have w1: "wf_df d1" using wf s1 by (rule wf_df_dropna_subset)
  have w2: "wf_df d2" using w1 s2 by (rule map_column_wf)
  have w3: "wf_df d3" using wf_df_drop_duplicates [OF w2] s3 by (rule map_column_wf)
  have w4: "wf_df d4" using w3 s4 by (rule map_column_wf)
  have w5: "wf_df d5" using w4 s5 by (rule map_column_wf)
  have w6: "wf_df d6" using w5 s6 by (rule map_column_wf)
  have y5: "holds d5 ''Year'' ''InvoiceDate'' (dt_field ts_year)"
    using w4 s5 by (rule holds_intro) simp
  have y6: "holds d6 ''Year'' ''InvoiceDate'' (dt_field ts_year)"
    using y5 s6 by (rule holds_step) simp_all
  have m6: "holds d6 ''Month'' ''InvoiceDate'' (dt_field ts_month)"
    using w5 s6 by (rule holds_intro) simp
  show "derived out ''Year'' ''InvoiceDate'' (dt_field ts_year)"
    using y6 s7 by (rule holds_step2) simp_all
  show "derived out ''Month'' ''InvoiceDate'' (dt_field ts_month)"
    using m6 s7 by (rule holds_step2) simp_all
  show "derived2 out ''TotalPrice'' ''Quantity'' ''UnitPrice'' mul_cell"
    using w6 s7 by (rule map_column2_derives) simp_all
qed

lemma load_steps_derived:
  assumes wf: "wf_df df" and l: "load_steps parse parse_time month_name day_name df = Inr out"
  shows "derived out ''Year'' ''Date'' (dt_field ts_year)"
    and "derived out ''Month'' ''Date'' (dt_field ts_month)"
    and "derived out ''Day'' ''Date'' (dt_field ts_day)"
    and "''Time'' \<in> set (columns df) \<Longrightarrow> derived out ''Hour'' ''Time'' (dt_field ts_hour)"
proof -
  from l obtain d1 d2 d3 d4 d5 d6 where
    s1: "map_column ''Date'' ''Date'' (to_datetime_cell parse) df = Inr d1" and
    s2: "map_column ''Year'' ''Date'' (dt_field ts_year) d1 = Inr d2" and
    s3: "map_column ''Month'' ''Date'' (dt_field ts_month) d2 = Inr d3" and
    s4: "map_column ''Month_Name'' ''Date'' (dt_name month_name) d3 = Inr d4" and
    s5: "map_column ''Day'' ''Date'' (dt_field ts_day) d4 = Inr d5" and
    s6: "map_column ''DayOfWeek'' ''Date'' (dt_name day_name) d5 = Inr d6" and
    s7: "(if ''Time'' \<in> set (columns d6) then
           bind_res (map_column ''Time'' ''Time'' (to_datetime_cell parse_time) d6) (\<lambda>d7.
             map_column ''Hour'' ''Time'' (dt_field ts_hour) d7)
         else Inr d6) = Inr out"
    unfolding load_steps_def bind_res_eq_Inr by blast
  have w1: "wf_df d1" using wf s1 by (rule map_column_wf)
  have w2: "wf_df d2" using w1 s2 by (rule map_column_wf)
  have w3: "wf_df d3" using w2 s3 by (rule map_column_wf)
  have w4: "wf_df d4" using w3 s4 by (rule map_column_wf)
  have w5: "wf_df d5" using w4 s5 by (rule map_column_wf)
  have w6: "wf_df d6" using w5 s6 by (rule map_column_wf)
  have y2: "holds d2 ''Year'' ''Date'' (dt_field ts_year)"
    using w1 s2 by (rule holds_intro) simp
  have y3: "holds d3 ''Year'' ''Date'' (dt_field ts_year)"
    using y2 s3 by (rule holds_step) simp_all
  have y4: "holds d4 ''Year'' ''Date'' (dt_field ts_year)"
    using y3 s4 by (rule holds_step) simp_all
  have y5: "holds d5 ''Year'' ''Date'' (dt_field ts_year)"
    using y4 s5 by (rule holds_step) simp_all
  have y6: "holds d6 ''Year'' ''Date'' (dt_field ts_year)"
    using y5 s6 by (rule holds_step) simp_all
  have m3: "holds d3 ''Month'' ''Date'' (dt_field ts_month)"
    using w2 s3 by (rule holds_intro) simp
  have m4: "holds d4 ''Month'' ''Date'' (dt_field ts_month)"
    using m3 s4 by (rule holds_step) simp_all
  have m5: "holds d5 ''Month'' ''Date'' (dt_field ts_month)"
    using m4 s5 by (rule holds_step) simp_all
  have m6: "holds d6 ''Month'' ''Date'' (dt_field ts_month)"
    using m5 s6 by (rule holds_step) simp_all
  have a5: "holds d5 ''Day'' ''Date'' (dt_field ts_day)"
    using w4 s5 by (rule holds_intro) simp
  have a6: "holds d6 ''Day'' ''Date'' (dt_field ts_day)"
    using a5 s6 by (rule holds_step) simp_all
  have cols: "set (columns d6)
      = insert ''DayOfWeek'' (insert ''Day'' (insert ''Month_Name'' (insert ''Month''
          (insert ''Year'' (insert ''Date'' (set (columns df)))))))"
    using map_column_columns [OF s1] map_column_columns [OF s2] map_column_columns [OF s3]
          map_column_columns [OF s4] map_column_columns [OF s5] map_column_columns [OF s6]
    by simp
  have all: "holds out ''Year'' ''Date'' (dt_field ts_year) \<and>
        holds out ''Month'' ''Date'' (dt_field ts_month) \<and>
        holds out ''Day'' ''Date'' (dt_field ts_day) \<and>
        (''Time'' \<in> set (columns df) \<longrightarrow> derived out ''Hour'' ''Time'' (dt_field ts_hour))"
  proof (cases "''Time'' \<in> set (columns d6)")
    case False
    with s7 have "out = d6" by simp
    moreover from False cols have "''Time'' \<notin> set (columns df)" by simp
    ultimately show ?thesis using y6 m6 a6 by simp
  next
    case True
    with s7 obtain d7 where
      s8: "map_column ''Time'' ''Time'' (to_datetime_cell parse_time) d6 = Inr d7" and
      s9: "map_column ''Hour'' ''Time'' (dt_field ts_hour) d7 = Inr out"
      by (auto simp: bind_res_eq_Inr)
    have w7: "wf_df d7" using w6 s8 by (rule map_column_wf)
    have y7: "holds d7 ''Year'' ''Date'' (dt_field ts_year)"
      using y6 s8 by (rule holds_step) simp_all
    have m7: "holds d7 ''Month'' ''Date'' (dt_field ts_month)"
      using m6 s8 by (rule holds_step) simp_all
    have a7: "holds d7 ''Day'' ''Date'' (dt_field ts_day)"
      using a6 s8 by (rule holds_step) simp_all
    have "holds out ''Year'' ''Date'' (dt_field ts_year)"
      using y7 s9 by (rule holds_step) simp_all
    moreover have "holds out ''Month'' ''Date'' (dt_field ts_month)"
      using m7 s9 by (rule holds_step) simp_all
    moreover have "holds out ''Day'' ''Date'' (dt_field ts_day)"
      using a7 s9 by (rule holds_step) simp_all
    moreover have "holds out ''Hour'' ''Time'' (dt_field ts_hour)"
      using w7 s9 by (rule holds_intro) simp
    ultimately show ?thesis by (simp add: holds_def)
  qed
  from all show "derived out ''Year'' ''Date'' (dt_field ts_year)"
    and "derived out ''Month'' ''Date'' (dt_field ts_month)"
    and "derived out ''Day'' ''Date'' (dt_field ts_day)"
    by (simp_all add: holds_def)
  from all show "''Time'' \<in> set (columns df) \<Longrightarrow> derived out ''Hour'' ''Time'' (dt_field ts_hour)"
    by simp
qed

text \<open>The sidebar filters hand on rows of the frame they were given, cell for cell.\<close>

lemma rows_select_rows: "set (rows (select_rows df m)) \<subseteq> set (rows df)"
  by (auto simp: select_rows_def dest!: set_zip_leftD)

lemma date_step_rows: "date_step df dr = Inr out \<Longrightarrow> set (rows out) \<subseteq> set (rows df)"
  using rows_select_rows
  by (auto simp: date_step_def bind_res_eq_Inr split: if_splits list.splits)

lemma isin_step_rows: "isin_step c df sel = Inr out \<Longrightarrow> set (rows out) \<subseteq> set (rows df)"
  using rows_select_rows
  by (auto simp: isin_step_def bind_res_eq_Inr split: if_splits)

lemma main_filter_rows:
  assumes "main_filter df dr pl br = Inr out"
  shows "columns out = columns df" and "set (rows out) \<subseteq> set (rows df)"
proof -
  from assms obtain d1 d2 where a: "date_step df dr = Inr d1"
    and b: "isin_step ''Product line'' d1 pl = Inr d2" and c: "isin_step ''Branch'' d2 br = Inr out"
    by (auto simp: main_filter_def bind_res_eq_Inr)
  show "columns out = columns df"
    using date_step_columns [OF a] isin_step_columns [OF b] isin_step_columns [OF c] by simp
  show "set (rows out) \<subseteq> set (rows df)"
    using date_step_rows [OF a] isin_step_rows [OF b] isin_step_rows [OF c] by blast
qed

lemma derived_subset:
  assumes "derived df t s g" and "columns out = columns df" and "set (rows out) \<subseteq> set (rows df)"
  shows "derived out t s g"
  using assms by (auto simp: derived_def cell_of_def)

text \<open>What \<open>clean_data\<close> does achieve for the customer numbers: every row that is left has
  one, and it is a whole number.\<close>

lemma map_column_sets_col:
  assumes "wf_df df" and "map_column c c f df = Inr out" and "\<And>x y. f x = Inr y \<Longrightarrow> P y"
  shows "col_all out c P"
  unfolding col_all_def
proof (intro ballI, clarify)
  fix i r' assume "(i, r') \<in> set (rows out)"
  with assms(1,2) obtain r where "f (cell_of df c r) = Inr (cell_of out c r')"
    using map_column_row by blast
  then show "P (cell_of out c r')" by (rule assms(3))
qed

lemma map_column_keeps_col:
  assumes "wf_df df" and "map_column target source f df = Inr out"
    and "col_all df c P" and "c \<in> set (columns df)" and "target \<noteq> c"
  shows "col_all out c P"
  unfolding col_all_def
proof (intro ballI, clarify)
  fix i r' assume "(i, r') \<in> set (rows out)"
  with assms(1,2) obtain r where r: "(i, r) \<in> set (rows df)"
    and b: "\<forall>c \<in> set (columns df). c \<noteq> target \<longrightarrow> cell_of out c r' = cell_of df c r"
    using map_column_row by blast
  from b assms(4,5) have "cell_of out c r' = cell_of df c r" by auto
  moreover from r assms(3) have "P (cell_of df c r)" by (auto simp: col_all_def)
  ultimately show "P (cell_of out c r')" by simp
qed

lemma map_column2_keeps_col:
  assumes "wf_df df" and "map_column2 target s1 s2 f df = Inr out"
    and "col_all df c P" and "c \<in> set (columns df)" and "target \<noteq> c"
  shows "col_all out c P"
  unfolding col_all_def
proof (intro ballI, clarify)
  fix i r' assume "(i, r') \<in> set (rows out)"
  with assms(1,2) obtain r where r: "(i, r) \<in> set (rows df)"
    and b: "\<forall>c \<in> set (columns df). c \<noteq> target \<longrightarrow> cell_of out c r' = cell_of df c r"
    using map_column2_row by blast
  from b assms(4,5) have "cell_of out c r' = cell_of df c r" by auto
  moreover from r assms(3) have "P (cell_of df c r)" by (auto simp: col_all_def)
  ultimately show "P (cell_of out c r')" by simp
qed

lemma astype_int_cell_whole: "astype_int_cell x = Inr y \<Longrightarrow> \<exists>k. y = Num (of_int k)"
  by (cases x) auto

lemma clean_data_customer_id_whole:
  assumes wf: "wf_df df" and c: "clean_data parse df = Inr out"
  shows "col_all out ''CustomerID'' (\<lambda>y. \<exists>k. y = Num (of_int k))"
proof -
  from c obtain d1 d2 d3 d4 d5 d6 where
    s1: "dropna_subset df ''CustomerID'' = Inr d1" and
    s2: "map_column ''Description'' ''Description'' (fillna_cell (Str ''No Description'')) d1 = Inr d2" and
    s3: "map_column ''CustomerID'' ''CustomerID'' astype_int_cell (drop_duplicates d2) = Inr d3" and
    s4: "map_column ''InvoiceDate'' ''InvoiceDate'' (to_datetime_cell parse) d3 = Inr d4" and
    s5: "map_column ''Year'' ''InvoiceDate'' (dt_field ts_year) d4 = Inr d5" and
    s6: "map_column ''Month'' ''InvoiceDate'' (dt_field ts_month) d5 = Inr d6" and
    s7: "map_column2 ''TotalPrice'' ''Quantity'' ''UnitPrice'' mul_cell d6 = Inr out"
    unfolding clean_data_def bind_res_eq_Inr by blast
  let ?P = "\<lambda>y. \<exists>k. y = Num (of_int k)"
  have w1: "wf_df d1" using wf s1 by (rule wf_df_dropna_subset)
  have w2: "wf_df d2" using w1 s2 by (rule map_column_wf)
  have w2': "wf_df (drop_duplicates d2)" using w2 by (rule wf_df_drop_duplicates)
  have w3: "wf_df d3" using w2' s3 by (rule map_column_wf)
  have w4: "wf_df d4" using w3 s4 by (rule map_column_wf)
  have w5: "wf_df d5" using w4 s5 by (rule map_column_wf)
  have w6: "wf_df d6" using w5 s6 by (rule map_column_wf)
  have m3: "''CustomerID'' \<in> set (columns d3)"
    using map_column_columns [OF s3] by simp
  have m4: "''CustomerID'' \<in> set (columns d4)"
    using map_column_columns [OF s4] m3 by simp
  have m5: "''CustomerID'' \<in> set (columns d5)"
    using map_column_columns [OF s5] m4 by simp
  have m6: "''CustomerID'' \<in> set (columns d6)"
    using map_column_columns [OF s6] m5 by simp
  have p3: "col_all d3 ''CustomerID'' ?P"
    using w2' s3 astype_int_cell_whole by (rule map_column_sets_col)
  have p4: "col_all d4 ''CustomerID'' ?P"
    using w3 s4 p3 m3 by (rule map_column_keeps_col) simp
  have p5: "col_all d5 ''CustomerID'' ?P"
    using w4 s5 p4 m4 by (rule map_column_keeps_col) simp
  have p6: "col_all d6 ''CustomerID'' ?P"
    using w5 s6 p5 m5 by (rule map_column_keeps_col) simp
  show ?thesis
    using w6 s7 p6 m6 by (rule map_column2_keeps_col) simp
qed

lemma fold_append_option:
  "fold (\<lambda>j acc. case f j of None \<Rightarrow> acc | Some e \<Rightarrow> acc @ [e]) js acc
     = acc @ concat (map (\<lambda>j. case f j of None \<Rightarrow> [] | Some e \<Rightarrow> [e]) js)"
  by (induction js arbitrary: acc) (auto split: option.splits)

lemma fold_append_rows: "fold (\<lambda>i acc. acc @ g i) is acc = acc @ concat (map g is)"
  by (induction "is" arbitrary: acc) auto

lemma concat_rows:
  "concat (map h (concat (map (\<lambda>i. map (\<lambda>j. (i, j)) (js i)) is)))
     = concat (map (\<lambda>i. concat (map (\<lambda>j. h (i, j)) (js i))) is)"
  by (induction "is") (simp_all add: comp_def)

lemma strong_corr_unrolled:
  "strong_corr cols corr
     = concat (map (\<lambda>(i, j). case strong_entry cols corr i j of None \<Rightarrow> [] | Some e \<Rightarrow> [e])
                 (upper_pairs (length cols)))"
proof -
  let ?n = "length cols"
  let ?h = "\<lambda>(i, j). case strong_entry cols corr i j of None \<Rightarrow> [] | Some e \<Rightarrow> [e]"
  have "strong_corr cols corr
          = fold (\<lambda>i acc. acc @ concat (map (\<lambda>j. ?h (i, j)) [i + 1 ..< ?n])) [0 ..< ?n] []"
    by (simp add: strong_corr_def fold_append_option)
  also have "\<dots> = concat (map (\<lambda>i. concat (map (\<lambda>j. ?h (i, j)) [i + 1 ..< ?n])) [0 ..< ?n])"
    by (simp add: fold_append_rows)
  also have "\<dots> = concat (map ?h (upper_pairs ?n))"
    unfolding upper_pairs_def by (rule concat_rows [symmetric])
  finally show ?thesis .
qed

lemma set_upper_pairs: "set (upper_pairs n) = {(i, j). i < j \<and> j < n}"
  by (force simp: upper_pairs_def)

lemma sorted_wrt_rows:
  assumes "sorted_wrt (<) (is :: nat list)" and "\<And>i. sorted_wrt (<) (js i :: nat list)"
  shows "sorted_wrt (\<lambda>(i, j) (k, l). i < k \<or> (i = k \<and> j < l))
           (concat (map (\<lambda>i. map (\<lambda>j. (i, j)) (js i)) is))"
  using assms(1)
proof (induction "is")
  case Nil
  show ?case by simp
next
  case (Cons a as)
  have "sorted_wrt (\<lambda>(i, j) (k, l). i < k \<or> (i = k \<and> j < l)) (map (\<lambda>j. (a, j)) (js a))"
    using assms(2) [of a] by (simp add: sorted_wrt_map)
  with Cons show ?case
    by (auto simp: sorted_wrt_append)
qed

lemma sorted_upper_pairs:
  "sorted_wrt (\<lambda>(i, j) (k, l). i < k \<or> (i = k \<and> j < l)) (upper_pairs n)"
  unfolding upper_pairs_def by (rule sorted_wrt_rows) simp_all

lemma sorted_wrt_irrefl_distinct:
  "sorted_wrt R xs \<Longrightarrow> (\<And>x. \<not> R x x) \<Longrightarrow> distinct xs"
  by (induction xs) auto

lemma distinct_upper_pairs: "distinct (upper_pairs n)"
  using sorted_upper_pairs by (rule sorted_wrt_irrefl_distinct) auto

lemma strong_entry_Some:
  "strong_entry cols corr i j = Some e \<longleftrightarrow>
     (\<exists>c. corr i j = Some c \<and> 7 / 10 < \<bar>c\<bar> \<and> e = (cols ! i, cols ! j, round_dp 3 c))"
  by (auto simp: strong_entry_def split: option.splits)

section \<open>The claims\<close>

text \<open>
  C1 (as amended). The strong correlations are listed for the fixed threshold 0.7, in
  the order of the two loops: for each pair of positions \<open>i < j\<close> among the selected
  columns, taken row by row over the upper triangle of the matrix (so ordered by the
  first column's position, then the second's, each pair once and never reversed), there
  is one entry if the coefficient is a number above 0.7 in absolute value, and none
  otherwise. The entry names the two columns, the earlier one first, with the
  coefficient rounded to three decimals. The selected columns are the number columns of
  the table, in table order, without Year, Month, Day and Hour; with fewer than two of
  them nothing is listed.
\<close>

theorem strong_correlations_each_pair_once_in_column_order:
  "strong_corr cols corr
     = concat (map (\<lambda>(i, j). case strong_entry cols corr i j of None \<Rightarrow> [] | Some e \<Rightarrow> [e])
                 (upper_pairs (length cols))) \<and>
   set (upper_pairs n) = {(i, j). i < j \<and> j < n} \<and>
   distinct (upper_pairs n) \<and>
   sorted_wrt (\<lambda>(i, j) (k, l). i < k \<or> (i = k \<and> j < l)) (upper_pairs n) \<and>
   (strong_entry cols corr i j = Some e \<longleftrightarrow>
      (\<exists>c. corr i j = Some c \<and> 7 / 10 < \<bar>c\<bar> \<and> e = (cols ! i, cols ! j, round_dp 3 c))) \<and>
   numerical_cols is_number df
     = filter (\<lambda>c. is_number c \<and> c \<notin> {''Year'', ''Month'', ''Day'', ''Hour''}) (columns df) \<and>
   (show_correlations is_number corr df = Strong listed \<longleftrightarrow>
      2 \<le> length (numerical_cols is_number df) \<and>
      listed = strong_corr (numerical_cols is_number df) corr \<and> listed \<noteq> [])"
proof (intro conjI)
  show "strong_corr cols corr
     = concat (map (\<lambda>(i, j). case strong_entry cols corr i j of None \<Rightarrow> [] | Some e \<Rightarrow> [e])
                 (upper_pairs (length cols)))"
    by (rule strong_corr_unrolled)
  show "set (upper_pairs n) = {(i, j). i < j \<and> j < n}"
    by (rule set_upper_pairs)
  show "distinct (upper_pairs n)"
    by (rule distinct_upper_pairs)
  show "sorted_wrt (\<lambda>(i, j) (k, l). i < k \<or> (i = k \<and> j < l)) (upper_pairs n)"
    by (rule sorted_upper_pairs)
  show "strong_entry cols corr i j = Some e \<longleftrightarrow>
      (\<exists>c. corr i j = Some c \<and> 7 / 10 < \<bar>c\<bar> \<and> e = (cols ! i, cols ! j, round_dp 3 c))"
    by (rule strong_entry_Some)
  show "numerical_cols is_number df
     = filter (\<lambda>c. is_number c \<and> c \<notin> {''Year'', ''Month'', ''Day'', ''Hour''}) (columns df)"
    by (simp add: numerical_cols_def conj_commute)
  show "show_correlations is_number corr df = Strong listed \<longleftrightarrow>
      2 \<le> length (numerical_cols is_number df) \<and>
      listed = strong_corr (numerical_cols is_number df) corr \<and> listed \<noteq> []"
    by (auto simp: show_correlations_def Let_def)
qed

text \<open>
  Four number columns, one of them a calendar column: Total goes with cogs at 0.9 and
  with Rating at -0.8, and the two are listed in that order, Day being left out.
\<close>

theorem strong_correlations_each_pair_once_in_column_order_witness:
  "show_correlations (\<lambda>c. True)
     (\<lambda>i j. if (i, j) = (0, 1) then Some (9 / 10) else if (i, j) = (0, 2) then Some (- 8 / 10)
            else Some (1 / 10))
     \<lparr>columns = [''Total'', ''Day'', ''cogs'', ''Rating''], rows = []\<rparr>
     = Strong [(''Total'', ''cogs'', 9 / 10), (''Total'', ''Rating'', - 8 / 10)] \<and>
   2 \<le> length (numerical_cols (\<lambda>c. True)
                 \<lparr>columns = [''Total'', ''Day'', ''cogs'', ''Rating''], rows = []\<rparr>) \<and>
   [(''Total'', ''cogs'', 9 / 10), (''Total'', ''Rating'', - 8 / 10)]
     = strong_corr (numerical_cols (\<lambda>c. True)
                      \<lparr>columns = [''Total'', ''Day'', ''cogs'', ''Rating''], rows = []\<rparr>)
         (\<lambda>i j. if (i, j) = (0, 1) then Some (9 / 10) else if (i, j) = (0, 2) then Some (- 8 / 10)
            else Some (1 / 10))"
proof -
  let ?corr = "\<lambda>i j :: nat. if (i, j) = (0, 1) then Some (9 / 10 :: real)
                 else if (i, j) = (0, 2) then Some (- 8 / 10) else Some (1 / 10)"
  let ?t = "\<lparr>columns = [''Total'', ''Day'', ''cogs'', ''Rating''], rows = []\<rparr>"
  let ?l = "[(''Total'', ''cogs'', 9 / 10 :: real), (''Total'', ''Rating'', - 8 / 10)]"
  have s: "show_correlations (\<lambda>c. True) ?corr ?t = Strong ?l"
    by (simp add: show_correlations_def numerical_cols_def strong_corr_def strong_entry_def
                  round_dp_def round_half_even_def Let_def upt_rec)
  have "2 \<le> length (numerical_cols (\<lambda>c. True) ?t) \<and>
        ?l = strong_corr (numerical_cols (\<lambda>c. True) ?t) ?corr \<and> ?l \<noteq> []"
    by (rule iffD1 [OF strong_correlations_each_pair_once_in_column_order
                         [where is_number = "\<lambda>c. True" and corr = ?corr and df = ?t
                            and listed = ?l and cols = "[]" and n = 0 and i = 0 and j = 0
                            and e = "('''', '''', 0)",
                          THEN conjunct2, THEN conjunct2, THEN conjunct2, THEN conjunct2,
                          THEN conjunct2, THEN conjunct2] s])
  with s show ?thesis by blast
qed

text \<open>
  C1 as the specification states it fails in the order of the list, which is that of the
  loops and not that of the coefficients: here the pair at 0.8 comes before the pair at
  0.9.
\<close>

theorem strong_correlations_not_ordered_by_size_counterexample:
  "show_correlations (\<lambda>c. True)
     (\<lambda>i j. if (i, j) = (0, 1) then Some (8 / 10) else if (i, j) = (0, 2) then Some (9 / 10)
            else Some 0)
     \<lparr>columns = [''Total'', ''cogs'', ''Rating''], rows = []\<rparr>
     = Strong [(''Total'', ''cogs'', 8 / 10), (''Total'', ''Rating'', 9 / 10)] \<and>
   \<not> sorted_wrt (\<lambda>a b. \<bar>snd (snd b)\<bar> \<le> \<bar>snd (snd a)\<bar>)
        [(''Total'', ''cogs'', 8 / 10 :: real), (''Total'', ''Rating'', 9 / 10)]"
  by (simp add: show_correlations_def numerical_cols_def strong_corr_def strong_entry_def
                round_dp_def round_half_even_def Let_def upt_rec)

text \<open>
  C2 (as amended). The two multi-valued columns are exploded as series of (row label,
  value) entries, split at the literal \<^verbatim>\<open>', '\<close>. For the countries, missing cells
  are dropped first, and the result holds exactly one entry per row and per piece of that
  row's text, in order. For the genres nothing is dropped: a text cell gives one entry per
  piece and a missing cell gives one missing entry (which the frequency count that
  follows ignores); with the missing entries dropped, the result is again one entry per
  row and piece.
\<close>

theorem explode_gives_one_entry_per_row_and_value:
  "(countries_series df = Inr out \<longrightarrow>
      out = concat (map (\<lambda>(i, r). case cell_of df ''country'' r of
                                     Str x \<Rightarrow> map (\<lambda>v. (i, Str v)) (py_split '', '' x)
                                   | _ \<Rightarrow> []) (rows df))) \<and>
   (genres df = Inr out' \<longrightarrow>
      out' = concat (map (\<lambda>(i, r). case cell_of df ''listed_in'' r of
                                      Str x \<Rightarrow> map (\<lambda>v. (i, Str v)) (py_split '', '' x)
                                    | _ \<Rightarrow> [(i, NA)]) (rows df)) \<and>
      dropna out' = concat (map (\<lambda>(i, r). case cell_of df ''listed_in'' r of
                                      Str x \<Rightarrow> map (\<lambda>v. (i, Str v)) (py_split '', '' x)
                                    | _ \<Rightarrow> []) (rows df)))"
  using countries_series_entries [of df out] genres_entries [of df out']
  by blast

text \<open>
  The scenario of the specification: the cell \<^verbatim>\<open>"USA, France"\<close> of title 0 becomes
  two entries under label 0, one per country, and the title without a country gives none.
\<close>

theorem explode_gives_one_entry_per_row_and_value_witness:
  "countries_series \<lparr>columns = [''title'', ''country''],
                      rows = [(0, [Str ''A'', Str ''USA, France'']), (1, [Str ''B'', NA])]\<rparr>
     = Inr [(0, Str ''USA''), (0, Str ''France'')] \<and>
   genres \<lparr>columns = [''title'', ''listed_in''],
            rows = [(0, [Str ''A'', Str ''Dramas, Comedies'']), (1, [Str ''B'', Str ''Kids''])]\<rparr>
     = Inr [(0, Str ''Dramas''), (0, Str ''Comedies''), (1, Str ''Kids'')] \<and>
   [(0, Str ''USA''), (0, Str ''France'')]
     = concat (map (\<lambda>(i, r). case cell_of \<lparr>columns = [''title'', ''country''],
                      rows = [(0, [Str ''A'', Str ''USA, France'']), (1, [Str ''B'', NA])]\<rparr>
                        ''country'' r of
                      Str x \<Rightarrow> map (\<lambda>v. (i, Str v)) (py_split '', '' x) | _ \<Rightarrow> [])
                 (rows \<lparr>columns = [''title'', ''country''],
                      rows = [(0, [Str ''A'', Str ''USA, France'']), (1, [Str ''B'', NA])]\<rparr>))"
proof -
  let ?t = "\<lparr>columns = [''title'', ''country''],
             rows = [(0, [Str ''A'', Str ''USA, France'']), (1, [Str ''B'', NA])]\<rparr>"
  let ?g = "\<lparr>columns = [''title'', ''listed_in''],
             rows = [(0, [Str ''A'', Str ''Dramas, Comedies'']), (1, [Str ''B'', Str ''Kids''])]\<rparr>"
  have c: "countries_series ?t = Inr [(0, Str ''USA''), (0, Str ''France'')]"
    by (simp add: countries_series_def getcol_def cell_of_def cell_at_def dropna_def
                  str_split_def py_split_def explode_def)
  have g: "genres ?g = Inr [(0, Str ''Dramas''), (0, Str ''Comedies''), (1, Str ''Kids'')]"
    by (simp add: genres_def getcol_def cell_of_def cell_at_def
                  str_split_def py_split_def explode_def)
  have e: "[(0, Str ''USA''), (0, Str ''France'')]
          = concat (map (\<lambda>(i, r). case cell_of ?t ''country'' r of
                      Str x \<Rightarrow> map (\<lambda>v. (i, Str v)) (py_split '', '' x) | _ \<Rightarrow> []) (rows ?t))"
    using explode_gives_one_entry_per_row_and_value
            [of ?t "[(0, Str ''USA''), (0, Str ''France'')]"] c
    by blast
  from c g e show ?thesis by blast
qed

text \<open>
  C2 as the specification states it fails for the genres, which are exploded without
  dropping anything first: the title whose genre cell is missing still gives an entry.
\<close>

theorem genres_keeps_missing_cell_counterexample:
  "genres \<lparr>columns = [''title'', ''listed_in''],
            rows = [(0, [Str ''A'', Str ''Dramas, Comedies'']), (1, [Str ''B'', NA])]\<rparr>
     = Inr [(0, Str ''Dramas''), (0, Str ''Comedies''), (1, NA)]"
  by (simp add: genres_def getcol_def cell_of_def cell_at_def
                str_split_def py_split_def explode_def)




text \<open>
  C4. A filter whose every predicate allows every value of its column gives the table
  back unchanged, rows with missing cells included. Titanic: the selected genders and
  classes cover the values of their columns (as the default selection, the column's
  \<open>unique()\<close>, does: it lists the missing value when the column has one) and every age
  is missing or within the slider's range. Retail: the same for a membership filter
  (Product line, Branch), and for the three filters of \<open>main\<close> in sequence when in
  addition a chosen date range holds every date.
\<close>

theorem filter_allowing_every_value_is_identity:
  "(getcol df ''Sex'' = Inr sex \<and> getcol df ''Pclass'' = Inr pclass \<and>
    getcol df ''Age'' = Inr age \<and>
    set (unique sex) \<subseteq> set gender_filter \<and> set (unique pclass) \<subseteq> set class_filter \<and>
    (\<forall>c \<in> set (unique age). c = NA \<or> in_range age_min age_max c) \<longrightarrow>
      titanic_filtered_df df gender_filter class_filter age_min age_max = Inr df) \<and>
   (getcol df c = Inr s \<longrightarrow> isin_step c df (unique s) = Inr df) \<and>
   ((length date_range = 2 \<longrightarrow> dates_within df (date_range ! 0) (date_range ! 1)) \<and>
    (\<forall>s. getcol df ''Product line'' = Inr s \<longrightarrow> set (unique s) \<subseteq> set product_lines) \<and>
    (\<forall>s. getcol df ''Branch'' = Inr s \<longrightarrow> set (unique s) \<subseteq> set branches) \<longrightarrow>
      main_filter df date_range product_lines branches = Inr df)"
proof (intro conjI impI)
  assume "getcol df ''Sex'' = Inr sex \<and> getcol df ''Pclass'' = Inr pclass \<and>
    getcol df ''Age'' = Inr age \<and>
    set (unique sex) \<subseteq> set gender_filter \<and> set (unique pclass) \<subseteq> set class_filter \<and>
    (\<forall>c \<in> set (unique age). c = NA \<or> in_range age_min age_max c)"
  then show "titanic_filtered_df df gender_filter class_filter age_min age_max = Inr df"
    by (intro titanic_filtered_df_all [of df sex pclass age]) blast+
next
  assume "getcol df c = Inr s"
  then show "isin_step c df (unique s) = Inr df"
    by (intro isin_step_all) auto
next
  assume h: "(length date_range = 2 \<longrightarrow> dates_within df (date_range ! 0) (date_range ! 1)) \<and>
    (\<forall>s. getcol df ''Product line'' = Inr s \<longrightarrow> set (unique s) \<subseteq> set product_lines) \<and>
    (\<forall>s. getcol df ''Branch'' = Inr s \<longrightarrow> set (unique s) \<subseteq> set branches)"
  have d: "date_step df date_range = Inr df"
  proof (cases "length date_range = 2")
    case False
    then show ?thesis by (rule date_step_not_a_range)
  next
    case True
    then obtain lo hi where dr: "date_range = [lo, hi]"
      by (cases date_range; cases "tl date_range"; auto)
    with h True have "dates_within df lo hi" by auto
    then show ?thesis unfolding dr by (rule date_step_all)
  qed
  from h have p: "isin_step ''Product line'' df product_lines = Inr df"
    by (intro isin_step_all) blast
  from h have b: "isin_step ''Branch'' df branches = Inr df"
    by (intro isin_step_all) blast
  from d p b show "main_filter df date_range product_lines branches = Inr df"
    by (simp add: main_filter_def)
qed

text \<open>
  A passenger list with an unknown gender and an unknown age, under the selection the
  sidebar starts with; a sales table under its default selection; a sales table with no
  filterable column at all.
\<close>

theorem filter_allowing_every_value_is_identity_witness:
  "titanic_filtered_df
     \<lparr>columns = [''Sex'', ''Pclass'', ''Age''],
      rows = [(0, [Str ''male'', Num 3, Num 22]), (1, [NA, Num 1, NA])]\<rparr>
     [Str ''male'', NA] [Num 1, Num 3] 0 80
     = Inr \<lparr>columns = [''Sex'', ''Pclass'', ''Age''],
            rows = [(0, [Str ''male'', Num 3, Num 22]), (1, [NA, Num 1, NA])]\<rparr> \<and>
   isin_step ''Product line''
     \<lparr>columns = [''Product line'', ''Total''],
      rows = [(0, [Str ''Sports and travel'', Num 10]), (1, [NA, Num 20])]\<rparr>
     [Str ''Sports and travel'', NA]
     = Inr \<lparr>columns = [''Product line'', ''Total''],
            rows = [(0, [Str ''Sports and travel'', Num 10]), (1, [NA, Num 20])]\<rparr> \<and>
   main_filter \<lparr>columns = [''Total''], rows = [(0, [Num 10]), (1, [NA])]\<rparr>
     [(2019, 1, 1)] [] [] = Inr \<lparr>columns = [''Total''], rows = [(0, [Num 10]), (1, [NA])]\<rparr>"
proof -
  let ?t = "\<lparr>columns = [''Sex'', ''Pclass'', ''Age''],
             rows = [(0, [Str ''male'', Num 3, Num 22]), (1, [NA, Num 1, NA])]\<rparr>"
  let ?sex = "[(0, Str ''male''), (1, NA)] :: series"
  let ?pclass = "[(0, Num 3), (1, Num 1)] :: series"
  let ?age = "[(0, Num 22), (1, NA)] :: series"
  let ?u = "\<lparr>columns = [''Product line'', ''Total''],
             rows = [(0, [Str ''Sports and travel'', Num 10]), (1, [NA, Num 20])]\<rparr>"
  let ?pl = "[(0, Str ''Sports and travel''), (1, NA)] :: series"
  let ?v = "\<lparr>columns = [''Total''], rows = [(0, [Num 10]), (1, [NA])]\<rparr>"
  have h1: "getcol ?t ''Sex'' = Inr ?sex \<and> getcol ?t ''Pclass'' = Inr ?pclass \<and>
      getcol ?t ''Age'' = Inr ?age \<and>
      set (unique ?sex) \<subseteq> set [Str ''male'', NA] \<and> set (unique ?pclass) \<subseteq> set [Num 1, Num 3] \<and>
      (\<forall>c \<in> set (unique ?age). c = NA \<or> in_range 0 80 c)"
    by (simp add: getcol_def cell_of_def cell_at_def)
  have one: "titanic_filtered_df ?t [Str ''male'', NA] [Num 1, Num 3] 0 80 = Inr ?t"
    using filter_allowing_every_value_is_identity
            [of ?t ?sex ?pclass ?age "[Str ''male'', NA]" "[Num 1, Num 3]" 0 80] h1
    by blast
  have h2: "getcol ?u ''Product line'' = Inr ?pl"
    by (simp add: getcol_def cell_of_def cell_at_def)
  have "isin_step ''Product line'' ?u (unique ?pl) = Inr ?u"
    using filter_allowing_every_value_is_identity [of ?u _ _ _ _ _ _ _ "''Product line''" ?pl] h2
    by blast
  then have two: "isin_step ''Product line'' ?u [Str ''Sports and travel'', NA] = Inr ?u"
    by (simp add: unique_def)
  have h3: "(length [(2019, 1, 1) :: date] = 2 \<longrightarrow>
        dates_within ?v ([(2019, 1, 1)] ! 0) ([(2019, 1, 1)] ! 1)) \<and>
      (\<forall>s. getcol ?v ''Product line'' = Inr s \<longrightarrow> set (unique s) \<subseteq> set []) \<and>
      (\<forall>s. getcol ?v ''Branch'' = Inr s \<longrightarrow> set (unique s) \<subseteq> set [])"
    by (simp add: getcol_def)
  have three: "main_filter ?v [(2019, 1, 1)] [] [] = Inr ?v"
    using filter_allowing_every_value_is_identity
            [of ?v _ _ _ _ _ _ _ _ _ "[(2019, 1, 1)]" "[]" "[]"] h3
    by blast
  from one two three show ?thesis by simp
qed

text \<open>
  C5 (as amended). A row whose Age (Titanic) or rating (Netflix) is missing is never
  excluded on that account: it is kept exactly when the other predicates keep it. A row
  whose release year is missing is always excluded. A row whose cell is missing in a
  membership-filtered column (Sex, Pclass, type) is kept exactly when the selection lists
  the missing value and the other predicates keep the row.
\<close>

theorem missing_cell_kept_where_the_predicate_allows_it:
  "(titanic_filtered_df df gf cf lo hi = Inr out \<and> (i, r) \<in> set (rows df) \<longrightarrow>
      (cell_of df ''Age'' r = NA \<longrightarrow>
         ((i, r) \<in> set (rows out) \<longleftrightarrow>
            cell_of df ''Sex'' r \<in> set gf \<and> cell_of df ''Pclass'' r \<in> set cf)) \<and>
      (cell_of df ''Sex'' r = NA \<longrightarrow>
         ((i, r) \<in> set (rows out) \<longleftrightarrow>
            NA \<in> set gf \<and> cell_of df ''Pclass'' r \<in> set cf \<and>
            (in_range lo hi (cell_of df ''Age'' r) \<or> cell_of df ''Age'' r = NA))) \<and>
      (cell_of df ''Pclass'' r = NA \<longrightarrow>
         ((i, r) \<in> set (rows out) \<longleftrightarrow>
            cell_of df ''Sex'' r \<in> set gf \<and> NA \<in> set cf \<and>
            (in_range lo hi (cell_of df ''Age'' r) \<or> cell_of df ''Age'' r = NA)))) \<and>
   (netflix_filtered_df df tf ylo yhi rf = Inr out' \<and> (i, r) \<in> set (rows df) \<longrightarrow>
      (cell_of df ''rating'' r = NA \<longrightarrow>
         ((i, r) \<in> set (rows out') \<longleftrightarrow>
            cell_of df ''type'' r \<in> set tf \<and> in_range ylo yhi (cell_of df ''release_year'' r))) \<and>
      (cell_of df ''release_year'' r = NA \<longrightarrow> (i, r) \<notin> set (rows out')) \<and>
      (cell_of df ''type'' r = NA \<longrightarrow>
         ((i, r) \<in> set (rows out') \<longleftrightarrow>
            NA \<in> set tf \<and> in_range ylo yhi (cell_of df ''release_year'' r) \<and>
            (cell_of df ''rating'' r \<in> set rf \<or> cell_of df ''rating'' r = NA))))"
proof (intro conjI impI)
  assume h: "titanic_filtered_df df gf cf lo hi = Inr out \<and> (i, r) \<in> set (rows df)"
  then have out: "rows out = filter (\<lambda>(i, r).
            cell_of df ''Sex'' r \<in> set gf \<and> cell_of df ''Pclass'' r \<in> set cf \<and>
            (in_range lo hi (cell_of df ''Age'' r) \<or> cell_of df ''Age'' r = NA)) (rows df)"
    using titanic_filtered_df_rows [of df gf cf lo hi out] by simp
  {
    assume "cell_of df ''Age'' r = NA"
    with h out show "(i, r) \<in> set (rows out) \<longleftrightarrow>
            cell_of df ''Sex'' r \<in> set gf \<and> cell_of df ''Pclass'' r \<in> set cf"
      by simp
  }
  {
    assume "cell_of df ''Sex'' r = NA"
    with h out show "(i, r) \<in> set (rows out) \<longleftrightarrow>
            NA \<in> set gf \<and> cell_of df ''Pclass'' r \<in> set cf \<and>
            (in_range lo hi (cell_of df ''Age'' r) \<or> cell_of df ''Age'' r = NA)"
      by simp
  }
  {
    assume "cell_of df ''Pclass'' r = NA"
    with h out show "(i, r) \<in> set (rows out) \<longleftrightarrow>
            cell_of df ''Sex'' r \<in> set gf \<and> NA \<in> set cf \<and>
            (in_range lo hi (cell_of df ''Age'' r) \<or> cell_of df ''Age'' r = NA)"
      by simp
  }
next
  assume h: "netflix_filtered_df df tf ylo yhi rf = Inr out' \<and> (i, r) \<in> set (rows df)"
  then have out: "rows out' = filter (\<lambda>(i, r).
            cell_of df ''type'' r \<in> set tf \<and> in_range ylo yhi (cell_of df ''release_year'' r) \<and>
            (cell_of df ''rating'' r \<in> set rf \<or> cell_of df ''rating'' r = NA)) (rows df)"
    using netflix_filtered_df_rows [of df tf ylo yhi rf out'] by simp
  {
    assume "cell_of df ''rating'' r = NA"
    with h out show "(i, r) \<in> set (rows out') \<longleftrightarrow>
            cell_of df ''type'' r \<in> set tf \<and> in_range ylo yhi (cell_of df ''release_year'' r)"
      by simp
  }
  {
    assume "cell_of df ''release_year'' r = NA"
    with h out show "(i, r) \<notin> set (rows out')"
      by simp
  }
  {
    assume "cell_of df ''type'' r = NA"
    with h out show "(i, r) \<in> set (rows out') \<longleftrightarrow>
            NA \<in> set tf \<and> in_range ylo yhi (cell_of df ''release_year'' r) \<and>
            (cell_of df ''rating'' r \<in> set rf \<or> cell_of df ''rating'' r = NA)"
      by simp
  }
qed

text \<open>
  Two passengers, only men selected: the one of unknown age stays, the one of unknown
  gender goes. Two titles: the one without a rating stays, the one without a release
  year goes.
\<close>

theorem missing_cell_kept_where_the_predicate_allows_it_witness:
  "(0, [Str ''male'', Num 3, NA])
     \<in> set (rows \<lparr>columns = [''Sex'', ''Pclass'', ''Age''],
                   rows = [(0, [Str ''male'', Num 3, NA])]\<rparr>) \<and>
   titanic_filtered_df
     \<lparr>columns = [''Sex'', ''Pclass'', ''Age''],
      rows = [(0, [Str ''male'', Num 3, NA]), (1, [NA, Num 3, Num 30])]\<rparr>
     [Str ''male''] [Num 3] 0 80
     = Inr \<lparr>columns = [''Sex'', ''Pclass'', ''Age''], rows = [(0, [Str ''male'', Num 3, NA])]\<rparr> \<and>
   (0, [Str ''Movie'', Num 2010, NA])
     \<in> set (rows \<lparr>columns = [''type'', ''release_year'', ''rating''],
                   rows = [(0, [Str ''Movie'', Num 2010, NA])]\<rparr>) \<and>
   (1, [Str ''Movie'', NA, Str ''PG''])
     \<notin> set (rows \<lparr>columns = [''type'', ''release_year'', ''rating''],
                   rows = [(0, [Str ''Movie'', Num 2010, NA])]\<rparr>) \<and>
   netflix_filtered_df
     \<lparr>columns = [''type'', ''release_year'', ''rating''],
      rows = [(0, [Str ''Movie'', Num 2010, NA]), (1, [Str ''Movie'', NA, Str ''PG''])]\<rparr>
     [Str ''Movie''] 2000 2021 [Str ''PG'']
     = Inr \<lparr>columns = [''type'', ''release_year'', ''rating''],
            rows = [(0, [Str ''Movie'', Num 2010, NA])]\<rparr>"
proof -
  let ?t = "\<lparr>columns = [''Sex'', ''Pclass'', ''Age''],
             rows = [(0, [Str ''male'', Num 3, NA]), (1, [NA, Num 3, Num 30])]\<rparr>"
  let ?to = "\<lparr>columns = [''Sex'', ''Pclass'', ''Age''], rows = [(0, [Str ''male'', Num 3, NA])]\<rparr>"
  let ?n = "\<lparr>columns = [''type'', ''release_year'', ''rating''],
             rows = [(0, [Str ''Movie'', Num 2010, NA]), (1, [Str ''Movie'', NA, Str ''PG''])]\<rparr>"
  let ?no = "\<lparr>columns = [''type'', ''release_year'', ''rating''],
              rows = [(0, [Str ''Movie'', Num 2010, NA])]\<rparr>"
  have t: "titanic_filtered_df ?t [Str ''male''] [Num 3] 0 80 = Inr ?to"
    by (simp add: titanic_filtered_df_def getcol_def cell_of_def cell_at_def between_def
                  isin_def isna_def mask_and_def mask_or_def select_rows_def)
  have n: "netflix_filtered_df ?n [Str ''Movie''] 2000 2021 [Str ''PG''] = Inr ?no"
    by (simp add: netflix_filtered_df_def getcol_def cell_of_def cell_at_def between_def
                  isin_def isna_def mask_and_def mask_or_def select_rows_def)
  have t0: "(0, [Str ''male'', Num 3, NA]) \<in> set (rows ?t)"
    and n0: "(0, [Str ''Movie'', Num 2010, NA]) \<in> set (rows ?n)"
    and n1: "(1, [Str ''Movie'', NA, Str ''PG'']) \<in> set (rows ?n)"
    by simp_all
  have age: "cell_of ?t ''Age'' [Str ''male'', Num 3, NA] = NA"
    and sexes: "cell_of ?t ''Sex'' [Str ''male'', Num 3, NA] \<in> set [Str ''male'']
                  \<and> cell_of ?t ''Pclass'' [Str ''male'', Num 3, NA] \<in> set [Num 3]"
    by (simp_all add: cell_of_def cell_at_def)
  have rating: "cell_of ?n ''rating'' [Str ''Movie'', Num 2010, NA] = NA"
    and others: "cell_of ?n ''type'' [Str ''Movie'', Num 2010, NA] \<in> set [Str ''Movie'']
                   \<and> in_range 2000 2021 (cell_of ?n ''release_year'' [Str ''Movie'', Num 2010, NA])"
    and year: "cell_of ?n ''release_year'' [Str ''Movie'', NA, Str ''PG''] = NA"
    by (simp_all add: cell_of_def cell_at_def)
  have kept_t: "(0, [Str ''male'', Num 3, NA]) \<in> set (rows ?to)"
    using missing_cell_kept_where_the_predicate_allows_it
            [of ?t "[Str ''male'']" "[Num 3]" 0 80 ?to 0 "[Str ''male'', Num 3, NA]"]
          t t0 age sexes
    by blast
  have kept_n: "(0, [Str ''Movie'', Num 2010, NA]) \<in> set (rows ?no)"
    using missing_cell_kept_where_the_predicate_allows_it
            [of ?n _ _ _ _ _ 0 "[Str ''Movie'', Num 2010, NA]"
                "[Str ''Movie'']" 2000 2021 "[Str ''PG'']" ?no]
          n n0 rating others
    by blast
  have gone_n: "(1, [Str ''Movie'', NA, Str ''PG'']) \<notin> set (rows ?no)"
    using missing_cell_kept_where_the_predicate_allows_it
            [of ?n _ _ _ _ _ 1 "[Str ''Movie'', NA, Str ''PG'']"
                "[Str ''Movie'']" 2000 2021 "[Str ''PG'']" ?no]
          n n1 year
    by blast
  from kept_t t kept_n gone_n n show ?thesis by blast
qed

text \<open>
  C5 as the specification states it fails for the membership filters: the options of the
  gender selector are the column's own distinct entries, the missing one included, and a
  selection that lists it keeps the passenger of unknown gender.
\<close>

theorem membership_filter_keeps_missing_counterexample:
  "titanic_filtered_df
     \<lparr>columns = [''Sex'', ''Pclass'', ''Age''], rows = [(0, [NA, Num 3, Num 22])]\<rparr>
     (unique [(0, NA)]) [Num 3] 0 80
     = Inr \<lparr>columns = [''Sex'', ''Pclass'', ''Age''], rows = [(0, [NA, Num 3, Num 22])]\<rparr>"
  by (simp add: titanic_filtered_df_def getcol_def cell_of_def cell_at_def between_def
                isin_def isna_def mask_and_def mask_or_def select_rows_def unique_def)



text \<open>
  C7. The statistics table of the Netflix dashboard has exactly one row for each distinct
  value of the type column that is not missing, and so has a table of group sizes for its
  key column, where the size of a group is the number of rows with that key. (A missing
  cell of the key column is no key: the rows that have one are in no group.)
\<close>

theorem aggregate_has_one_row_per_group_key:
  "(stats df = Inr tbl \<longrightarrow>
      distinct (map fst tbl) \<and>
      set (map fst tbl) = (\<lambda>(i, r). cell_of df ''type'' r) ` set (rows df) - {NA} \<and>
      length tbl = card ((\<lambda>(i, r). cell_of df ''type'' r) ` set (rows df) - {NA})) \<and>
   (groupby_size df key = Inr sizes \<longrightarrow>
      distinct (map fst sizes) \<and>
      set (map fst sizes) = (\<lambda>(i, r). cell_of df key r) ` set (rows df) - {NA} \<and>
      length sizes = card ((\<lambda>(i, r). cell_of df key r) ` set (rows df) - {NA}) \<and>
      (\<forall>(k, n) \<in> set sizes.
          n = length (filter (\<lambda>(i, r). cell_of df key r = k) (rows df))))"
proof (intro conjI impI)
  assume "stats df = Inr tbl"
  then obtain keys where k: "getcol df ''type'' = Inr keys" and m: "map fst tbl = group_keys keys"
    using stats_keys by blast
  from k have cells: "snd ` set keys = (\<lambda>(i, r). cell_of df ''type'' r) ` set (rows df)"
    by (rule getcol_cells)
  show "distinct (map fst tbl)"
    by (simp add: m distinct_group_keys)
  show "set (map fst tbl) = (\<lambda>(i, r). cell_of df ''type'' r) ` set (rows df) - {NA}"
    unfolding m set_group_keys cells ..
  have "length tbl = length (map fst tbl)" by simp
  also have "\<dots> = card (snd ` set keys - {NA})"
    unfolding m by (rule length_group_keys)
  finally show "length tbl = card ((\<lambda>(i, r). cell_of df ''type'' r) ` set (rows df) - {NA})"
    unfolding cells .
next
  assume "groupby_size df key = Inr sizes"
  then obtain keys where k: "getcol df key = Inr keys"
    and s: "sizes = map (\<lambda>k. (k, length (group_rows df key k))) (group_keys keys)"
    using groupby_size_keys by blast
  from k have cells: "snd ` set keys = (\<lambda>(i, r). cell_of df key r) ` set (rows df)"
    by (rule getcol_cells)
  have m: "map fst sizes = group_keys keys"
    by (simp add: s comp_def)
  show "distinct (map fst sizes)"
    by (simp add: m distinct_group_keys)
  show "set (map fst sizes) = (\<lambda>(i, r). cell_of df key r) ` set (rows df) - {NA}"
    unfolding m set_group_keys cells ..
  have "length sizes = length (map fst sizes)" by simp
  also have "\<dots> = card (snd ` set keys - {NA})"
    unfolding m by (rule length_group_keys)
  finally show "length sizes = card ((\<lambda>(i, r). cell_of df key r) ` set (rows df) - {NA})"
    unfolding cells .
  show "\<forall>(k, n) \<in> set sizes.
          n = length (filter (\<lambda>(i, r). cell_of df key r = k) (rows df))"
    by (auto simp: s group_rows_def)
qed

text \<open>
  The scenario of the specification: two movies and one show, grouped by type and
  counted, give Movie 2 and TV Show 1; and the statistics table of the same three titles
  has the two rows Movie and TV Show.
\<close>

theorem aggregate_has_one_row_per_group_key_witness:
  "groupby_size \<lparr>columns = [''type'', ''year''],
                  rows = [(0, [Str ''Movie'', Num 2000]), (1, [Str ''Movie'', Num 2010]),
                          (2, [Str ''TV Show'', Num 2005])]\<rparr> ''type''
     = Inr [(Str ''Movie'', 2), (Str ''TV Show'', 1)] \<and>
   length [(Str ''Movie'', 2 :: nat), (Str ''TV Show'', 1)]
     = card ((\<lambda>(i, r). cell_of \<lparr>columns = [''type'', ''year''],
                  rows = [(0, [Str ''Movie'', Num 2000]), (1, [Str ''Movie'', Num 2010]),
                          (2, [Str ''TV Show'', Num 2005])]\<rparr> ''type'' r)
               ` set (rows \<lparr>columns = [''type'', ''year''],
                  rows = [(0, [Str ''Movie'', Num 2000]), (1, [Str ''Movie'', Num 2010]),
                          (2, [Str ''TV Show'', Num 2005])]\<rparr>) - {NA}) \<and>
   (\<exists>tbl. stats \<lparr>columns = [''show_id'', ''type'', ''release_year'', ''country'', ''director''],
                  rows = [(0, [Str ''s1'', Str ''Movie'', Num 2000, Str ''India'', NA]),
                          (1, [Str ''s2'', Str ''Movie'', Num 2010, Str ''India'', Str ''X'']),
                          (2, [Str ''s3'', Str ''TV Show'', Num 2005, NA, NA])]\<rparr> = Inr tbl \<and>
          map fst tbl = [Str ''Movie'', Str ''TV Show''] \<and> map (Total \<circ> snd) tbl = [2, 1] \<and>
          distinct (map fst tbl))"
proof -
  let ?t = "\<lparr>columns = [''type'', ''year''],
                  rows = [(0, [Str ''Movie'', Num 2000]), (1, [Str ''Movie'', Num 2010]),
                          (2, [Str ''TV Show'', Num 2005])]\<rparr>"
  let ?u = "\<lparr>columns = [''show_id'', ''type'', ''release_year'', ''country'', ''director''],
                  rows = [(0, [Str ''s1'', Str ''Movie'', Num 2000, Str ''India'', NA]),
                          (1, [Str ''s2'', Str ''Movie'', Num 2010, Str ''India'', Str ''X'']),
                          (2, [Str ''s3'', Str ''TV Show'', Num 2005, NA, NA])]\<rparr>"
  have g: "groupby_size ?t ''type'' = Inr [(Str ''Movie'', 2), (Str ''TV Show'', 1)]"
    by code_simp
  have n: "length [(Str ''Movie'', 2 :: nat), (Str ''TV Show'', 1)]
     = card ((\<lambda>(i, r). cell_of ?t ''type'' r) ` set (rows ?t) - {NA})"
    by (rule aggregate_has_one_row_per_group_key
               [of ?t "[]" "''type''" "[(Str ''Movie'', 2), (Str ''TV Show'', 1)]",
                THEN conjunct2, THEN mp, OF g, THEN conjunct2, THEN conjunct2, THEN conjunct1])
  have keys: "group_keys [(0, Str ''Movie''), (Suc 0, Str ''Movie''), (2, Str ''TV Show'')]
                = [Str ''Movie'', Str ''TV Show'']"
    by code_simp
  have "\<exists>tbl. stats ?u = Inr tbl \<and> map fst tbl = [Str ''Movie'', Str ''TV Show'']
          \<and> map (Total \<circ> snd) tbl = [2, 1]"
    by (simp add: stats_def getcol_def cell_of_def cell_at_def keys stats_group_def
                  group_cells_def group_rows_def numeric_def count_cells_def)
  then obtain tbl where s: "stats ?u = Inr tbl" and f: "map fst tbl = [Str ''Movie'', Str ''TV Show'']"
    and c: "map (Total \<circ> snd) tbl = [2, 1]"
    by (elim exE conjE)
  have d: "distinct (map fst tbl)"
    by (rule aggregate_has_one_row_per_group_key
               [of ?u tbl, THEN conjunct1, THEN mp, OF s, THEN conjunct1])
  have ex: "\<exists>tbl. stats ?u = Inr tbl \<and> map fst tbl = [Str ''Movie'', Str ''TV Show'']
          \<and> map (Total \<circ> snd) tbl = [2, 1] \<and> distinct (map fst tbl)"
    by (intro exI [of _ tbl] conjI s f c d)
  show ?thesis
    by (intro conjI g n ex)
qed

text \<open>
  C8. The derived columns are computed from their source columns when the data is loaded
  and the sidebar filters hand them on unchanged. After \<open>clean_data\<close>, in every row, Year and
  Month are the year and month of the row's InvoiceDate and TotalPrice is Quantity times
  UnitPrice. After the retail \<open>load_data\<close>, in every row, Year, Month and Day are those of the
  row's Date and, when the file has a Time column, Hour is the hour of the row's Time. A
  column that is derived from another in a frame is derived from it in the frame the
  retail filters make of it.
\<close>

theorem derived_columns_computed_at_load_and_kept:
  "(wf_df df \<and> clean_data parse df = Inr out \<longrightarrow>
      derived out ''Year'' ''InvoiceDate'' (dt_field ts_year) \<and>
      derived out ''Month'' ''InvoiceDate'' (dt_field ts_month) \<and>
      derived2 out ''TotalPrice'' ''Quantity'' ''UnitPrice'' mul_cell) \<and>
   (wf_df df \<and> load_data parse parse_time month_name day_name df = Some loaded \<longrightarrow>
      derived loaded ''Year'' ''Date'' (dt_field ts_year) \<and>
      derived loaded ''Month'' ''Date'' (dt_field ts_month) \<and>
      derived loaded ''Day'' ''Date'' (dt_field ts_day) \<and>
      (''Time'' \<in> set (columns df) \<longrightarrow> derived loaded ''Hour'' ''Time'' (dt_field ts_hour))) \<and>
   (derived df t s g \<and> main_filter df date_range product_lines branches = Inr filtered \<longrightarrow>
      derived filtered t s g)"
proof (intro conjI impI)
  assume h: "wf_df df \<and> clean_data parse df = Inr out"
  then show "derived out ''Year'' ''InvoiceDate'' (dt_field ts_year)"
    using clean_data_derived(1) by blast
  from h show "derived out ''Month'' ''InvoiceDate'' (dt_field ts_month)"
    using clean_data_derived(2) by blast
  from h show "derived2 out ''TotalPrice'' ''Quantity'' ''UnitPrice'' mul_cell"
    using clean_data_derived(3) by blast
next
  assume h: "wf_df df \<and> load_data parse parse_time month_name day_name df = Some loaded"
  then have wf: "wf_df df"
    and l: "load_steps parse parse_time month_name day_name df = Inr loaded"
    by (auto simp: load_data_def split: sum.splits)
  show "derived loaded ''Year'' ''Date'' (dt_field ts_year)"
    using wf l by (rule load_steps_derived(1))
  show "derived loaded ''Month'' ''Date'' (dt_field ts_month)"
    using wf l by (rule load_steps_derived(2))
  show "derived loaded ''Day'' ''Date'' (dt_field ts_day)"
    using wf l by (rule load_steps_derived(3))
  assume "''Time'' \<in> set (columns df)"
  with wf l show "derived loaded ''Hour'' ''Time'' (dt_field ts_hour)"
    by (rule load_steps_derived(4))
next
  assume h: "derived df t s g \<and> main_filter df date_range product_lines branches = Inr filtered"
  then have "columns filtered = columns df" and "set (rows filtered) \<subseteq> set (rows df)"
    using main_filter_rows by blast+
  with h show "derived filtered t s g"
    using derived_subset by blast
qed

text \<open>
  Two invoices, one without a date, cleaned: 6 at 2.55 make 15.3 in December 2010, and the
  invoice without a date has no year and no month. One sale, loaded and then filtered by
  branch: its calendar columns are those of its date and its hour that of its time.
\<close>

theorem derived_columns_computed_at_load_and_kept_witness:
  "clean_data (\<lambda>c. if c = Str ''12/1/2010 8:26''
                    then Some \<lparr>ts_year = 2010, ts_month = 12, ts_day = 1, ts_hour = 8, ts_minute = 26\<rparr>
                    else None)
     \<lparr>columns = [''InvoiceDate'', ''Quantity'', ''UnitPrice'', ''CustomerID'', ''Description''],
      rows = [(0, [Str ''12/1/2010 8:26'', Num 6, Num (255 / 100), Num 17850, Str ''LANTERN'']),
              (1, [NA, Num 2, Num 3, Num 13047, NA])]\<rparr>
     = Inr \<lparr>columns = [''InvoiceDate'', ''Quantity'', ''UnitPrice'', ''CustomerID'', ''Description'',
                       ''Year'', ''Month'', ''TotalPrice''],
            rows = [(0, [Ts \<lparr>ts_year = 2010, ts_month = 12, ts_day = 1, ts_hour = 8, ts_minute = 26\<rparr>,
                         Num 6, Num (255 / 100), Num 17850, Str ''LANTERN'',
                         Num 2010, Num 12, Num (153 / 10)]),
                    (1, [NA, Num 2, Num 3, Num 13047, Str ''No Description'', NA, NA, Num 6])]\<rparr> \<and>
   derived2 \<lparr>columns = [''InvoiceDate'', ''Quantity'', ''UnitPrice'', ''CustomerID'', ''Description'',
                       ''Year'', ''Month'', ''TotalPrice''],
            rows = [(0, [Ts \<lparr>ts_year = 2010, ts_month = 12, ts_day = 1, ts_hour = 8, ts_minute = 26\<rparr>,
                         Num 6, Num (255 / 100), Num 17850, Str ''LANTERN'',
                         Num 2010, Num 12, Num (153 / 10)]),
                    (1, [NA, Num 2, Num 3, Num 13047, Str ''No Description'', NA, NA, Num 6])]\<rparr>
      ''TotalPrice'' ''Quantity'' ''UnitPrice'' mul_cell \<and>
   (\<exists>loaded filtered.
      load_data (\<lambda>c. if c = Str ''1/5/2019''
                      then Some \<lparr>ts_year = 2019, ts_month = 1, ts_day = 5, ts_hour = 0, ts_minute = 0\<rparr>
                      else None)
                (\<lambda>c. if c = Str ''13:08''
                      then Some \<lparr>ts_year = 1900, ts_month = 1, ts_day = 1, ts_hour = 13, ts_minute = 8\<rparr>
                      else None)
                (\<lambda>t. ''January'') (\<lambda>t. ''Saturday'')
        \<lparr>columns = [''Branch'', ''Date'', ''Time'', ''Total''],
         rows = [(0, [Str ''A'', Str ''1/5/2019'', Str ''13:08'', Num 548])]\<rparr> = Some loaded \<and>
      derived loaded ''Hour'' ''Time'' (dt_field ts_hour) \<and>
      main_filter loaded [] [] [Str ''A''] = Inr filtered \<and>
      derived filtered ''Hour'' ''Time'' (dt_field ts_hour) \<and>
      rows filtered = [(0, [Str ''A'',
          Ts \<lparr>ts_year = 2019, ts_month = 1, ts_day = 5, ts_hour = 0, ts_minute = 0\<rparr>,
          Ts \<lparr>ts_year = 1900, ts_month = 1, ts_day = 1, ts_hour = 13, ts_minute = 8\<rparr>,
          Num 548, Num 2019, Num 1, Str ''January'', Num 5, Str ''Saturday'', Num 13])])"
proof -
  let ?parse = "\<lambda>c. if c = Str ''12/1/2010 8:26''
                    then Some \<lparr>ts_year = 2010, ts_month = 12, ts_day = 1, ts_hour = 8, ts_minute = 26\<rparr>
                    else None"
  let ?t = "\<lparr>columns = [''InvoiceDate'', ''Quantity'', ''UnitPrice'', ''CustomerID'', ''Description''],
      rows = [(0, [Str ''12/1/2010 8:26'', Num 6, Num (255 / 100), Num 17850, Str ''LANTERN'']),
              (1, [NA, Num 2, Num 3, Num 13047, NA])]\<rparr>"
  let ?o = "\<lparr>columns = [''InvoiceDate'', ''Quantity'', ''UnitPrice'', ''CustomerID'', ''Description'',
                       ''Year'', ''Month'', ''TotalPrice''],
            rows = [(0, [Ts \<lparr>ts_year = 2010, ts_month = 12, ts_day = 1, ts_hour = 8, ts_minute = 26\<rparr>,
                         Num 6, Num (255 / 100), Num 17850, Str ''LANTERN'',
                         Num 2010, Num 12, Num (153 / 10)]),
                    (1, [NA, Num 2, Num 3, Num 13047, Str ''No Description'', NA, NA, Num 6])]\<rparr>"
  let ?pd = "\<lambda>c. if c = Str ''1/5/2019''
                      then Some \<lparr>ts_year = 2019, ts_month = 1, ts_day = 5, ts_hour = 0, ts_minute = 0\<rparr>
                      else None"
  let ?pt = "\<lambda>c. if c = Str ''13:08''
                      then Some \<lparr>ts_year = 1900, ts_month = 1, ts_day = 1, ts_hour = 13, ts_minute = 8\<rparr>
                      else None"
  let ?r = "\<lparr>columns = [''Branch'', ''Date'', ''Time'', ''Total''],
         rows = [(0, [Str ''A'', Str ''1/5/2019'', Str ''13:08'', Num 548])]\<rparr>"
  let ?l = "\<lparr>columns = [''Branch'', ''Date'', ''Time'', ''Total'', ''Year'', ''Month'', ''Month_Name'',
                       ''Day'', ''DayOfWeek'', ''Hour''],
         rows = [(0, [Str ''A'',
          Ts \<lparr>ts_year = 2019, ts_month = 1, ts_day = 5, ts_hour = 0, ts_minute = 0\<rparr>,
          Ts \<lparr>ts_year = 1900, ts_month = 1, ts_day = 1, ts_hour = 13, ts_minute = 8\<rparr>,
          Num 548, Num 2019, Num 1, Str ''January'', Num 5, Str ''Saturday'', Num 13])]\<rparr>"
  have wt: "wf_df ?t" and wr: "wf_df ?r"
    by (simp_all add: wf_df_def)
  have c: "clean_data ?parse ?t = Inr ?o"
    by code_simp
  have d2: "derived2 ?o ''TotalPrice'' ''Quantity'' ''UnitPrice'' mul_cell"
    by (rule derived_columns_computed_at_load_and_kept
               [where df = ?t and parse = ?parse and out = ?o, THEN conjunct1, THEN mp, OF conjI [OF wt c],
                THEN conjunct2, THEN conjunct2])
  have l: "load_data ?pd ?pt (\<lambda>t. ''January'') (\<lambda>t. ''Saturday'') ?r = Some ?l"
    by code_simp
  have time: "''Time'' \<in> set (columns ?r)"
    by simp
  have h: "derived ?l ''Hour'' ''Time'' (dt_field ts_hour)"
    by (rule derived_columns_computed_at_load_and_kept
               [where df = ?r and parse = ?pd and parse_time = ?pt
                  and month_name = "\<lambda>t. ''January''" and day_name = "\<lambda>t. ''Saturday''"
                  and loaded = ?l,
                THEN conjunct2, THEN conjunct1, THEN mp, OF conjI [OF wr l],
                THEN conjunct2, THEN conjunct2, THEN conjunct2, THEN mp, OF time])
  have f: "main_filter ?l [] [] [Str ''A''] = Inr ?l"
    by code_simp
  have k: "derived ?l ''Hour'' ''Time'' (dt_field ts_hour)"
    by (rule derived_columns_computed_at_load_and_kept
               [where df = ?l and t = "''Hour''" and s = "''Time''" and g = "dt_field ts_hour"
                  and date_range = "[]" and product_lines = "[]" and branches = "[Str ''A'']"
                  and filtered = ?l,
                THEN conjunct2, THEN conjunct2, THEN mp, OF conjI [OF h f]])
  have r: "rows ?l = [(0, [Str ''A'',
          Ts \<lparr>ts_year = 2019, ts_month = 1, ts_day = 5, ts_hour = 0, ts_minute = 0\<rparr>,
          Ts \<lparr>ts_year = 1900, ts_month = 1, ts_day = 1, ts_hour = 13, ts_minute = 8\<rparr>,
          Num 548, Num 2019, Num 1, Str ''January'', Num 5, Str ''Saturday'', Num 13])]"
    by simp
  have ex: "\<exists>loaded filtered.
      load_data ?pd ?pt (\<lambda>t. ''January'') (\<lambda>t. ''Saturday'') ?r = Some loaded \<and>
      derived loaded ''Hour'' ''Time'' (dt_field ts_hour) \<and>
      main_filter loaded [] [] [Str ''A''] = Inr filtered \<and>
      derived filtered ''Hour'' ''Time'' (dt_field ts_hour) \<and>
      rows filtered = [(0, [Str ''A'',
          Ts \<lparr>ts_year = 2019, ts_month = 1, ts_day = 5, ts_hour = 0, ts_minute = 0\<rparr>,
          Ts \<lparr>ts_year = 1900, ts_month = 1, ts_day = 1, ts_hour = 13, ts_minute = 8\<rparr>,
          Num 548, Num 2019, Num 1, Str ''January'', Num 5, Str ''Saturday'', Num 13])]"
    by (intro exI [of _ ?l] conjI l h f k r)
  show ?thesis
    by (intro conjI c d2 ex)
qed

text \<open>
  C9 at an input on which the code falls short of it. With no gender selected the
  filtered table has no rows. The heat map, which is guarded, reports that there is no
  data; the survival-rate card is not guarded: it is drawn with not-a-number (printed
  \<^verbatim>\<open>nan%\<close>) and no message.
\<close>

theorem survival_rate_of_empty_result_is_not_a_number:
  "titanic_filtered_df
     \<lparr>columns = [''Sex'', ''Pclass'', ''Age'', ''Survived''],
      rows = [(0, [Str ''male'', Num 3, Num 22, Num 0]), (1, [Str ''female'', Num 1, Num 38, Num 1])]\<rparr>
     [] [Num 1, Num 3] 0 80
     = Inr \<lparr>columns = [''Sex'', ''Pclass'', ''Age'', ''Survived''], rows = []\<rparr> \<and>
   heatmap \<lparr>columns = [''Sex'', ''Pclass'', ''Age'', ''Survived''], rows = []\<rparr>
     = Inr (Warning ''No data available for heatmap with current filters.'') \<and>
   survival_rate \<lparr>columns = [''Sex'', ''Pclass'', ''Age'', ''Survived''], rows = []\<rparr>
     = Inr (Metric None)"
  by code_simp

text \<open>
  C10 at two inputs on which the code falls short of it. Duplicates are removed before
  the customer number is cast and the invoice date is read, and both conversions can
  make equal what was different: two invoices that differ only in the fraction of the
  customer number, or only in how the same date is written, are two equal rows of the
  cleaned table.
\<close>

theorem clean_data_leaves_duplicate_rows:
  "clean_data (\<lambda>c. None)
     \<lparr>columns = [''CustomerID'', ''Description'', ''InvoiceDate'', ''Quantity'', ''UnitPrice''],
      rows = [(0, [Num (178502 / 10), Str ''LANTERN'', NA, Num 6, Num 3]),
              (1, [Num (178507 / 10), Str ''LANTERN'', NA, Num 6, Num 3])]\<rparr>
     = Inr \<lparr>columns = [''CustomerID'', ''Description'', ''InvoiceDate'', ''Quantity'', ''UnitPrice'',
                       ''Year'', ''Month'', ''TotalPrice''],
            rows = [(0, [Num 17850, Str ''LANTERN'', NA, Num 6, Num 3, NA, NA, Num 18]),
                    (1, [Num 17850, Str ''LANTERN'', NA, Num 6, Num 3, NA, NA, Num 18])]\<rparr> \<and>
   \<not> distinct (map snd
        [(0 :: nat, [Num 17850, Str ''LANTERN'', NA, Num 6, Num 3, NA, NA, Num 18]),
         (1, [Num 17850, Str ''LANTERN'', NA, Num 6, Num 3, NA, NA, Num 18])]) \<and>
   (\<exists>out. clean_data (\<lambda>c. if c = Str ''12/1/2010 8:26'' \<or> c = Str ''12/01/2010 08:26''
                           then Some \<lparr>ts_year = 2010, ts_month = 12, ts_day = 1,
                                       ts_hour = 8, ts_minute = 26\<rparr>
                           else None)
            \<lparr>columns = [''CustomerID'', ''Description'', ''InvoiceDate'', ''Quantity'', ''UnitPrice''],
             rows = [(0, [Num 17850, Str ''LANTERN'', Str ''12/1/2010 8:26'', Num 6, Num 3]),
                     (1, [Num 17850, Str ''LANTERN'', Str ''12/01/2010 08:26'', Num 6, Num 3])]\<rparr>
            = Inr out \<and> length (rows out) = 2 \<and> \<not> distinct (map snd (rows out)))"
proof -
  have a: "clean_data (\<lambda>c. None)
     \<lparr>columns = [''CustomerID'', ''Description'', ''InvoiceDate'', ''Quantity'', ''UnitPrice''],
      rows = [(0, [Num (178502 / 10), Str ''LANTERN'', NA, Num 6, Num 3]),
              (1, [Num (178507 / 10), Str ''LANTERN'', NA, Num 6, Num 3])]\<rparr>
     = Inr \<lparr>columns = [''CustomerID'', ''Description'', ''InvoiceDate'', ''Quantity'', ''UnitPrice'',
                       ''Year'', ''Month'', ''TotalPrice''],
            rows = [(0, [Num 17850, Str ''LANTERN'', NA, Num 6, Num 3, NA, NA, Num 18]),
                    (1, [Num 17850, Str ''LANTERN'', NA, Num 6, Num 3, NA, NA, Num 18])]\<rparr>"
    by code_simp
  have b: "\<not> distinct (map snd
        [(0 :: nat, [Num 17850, Str ''LANTERN'', NA, Num 6, Num 3, NA, NA, Num 18]),
         (1, [Num 17850, Str ''LANTERN'', NA, Num 6, Num 3, NA, NA, Num 18])])"
    by simp
  let ?o = "\<lparr>columns = [''CustomerID'', ''Description'', ''InvoiceDate'', ''Quantity'', ''UnitPrice'',
                       ''Year'', ''Month'', ''TotalPrice''],
            rows = [(0, [Num 17850, Str ''LANTERN'',
                         Ts \<lparr>ts_year = 2010, ts_month = 12, ts_day = 1, ts_hour = 8, ts_minute = 26\<rparr>,
                         Num 6, Num 3, Num 2010, Num 12, Num 18]),
                    (1, [Num 17850, Str ''LANTERN'',
                         Ts \<lparr>ts_year = 2010, ts_month = 12, ts_day = 1, ts_hour = 8, ts_minute = 26\<rparr>,
                         Num 6, Num 3, Num 2010, Num 12, Num 18])]\<rparr>"
  have c: "clean_data (\<lambda>c. if c = Str ''12/1/2010 8:26'' \<or> c = Str ''12/01/2010 08:26''
                           then Some \<lparr>ts_year = 2010, ts_month = 12, ts_day = 1,
                                       ts_hour = 8, ts_minute = 26\<rparr>
                           else None)
            \<lparr>columns = [''CustomerID'', ''Description'', ''InvoiceDate'', ''Quantity'', ''UnitPrice''],
             rows = [(0, [Num 17850, Str ''LANTERN'', Str ''12/1/2010 8:26'', Num 6, Num 3]),
                     (1, [Num 17850, Str ''LANTERN'', Str ''12/01/2010 08:26'', Num 6, Num 3])]\<rparr>
            = Inr ?o"
    by code_simp
  have d: "length (rows ?o) = 2" and e: "\<not> distinct (map snd (rows ?o))"
    by simp_all
  have ex: "\<exists>out. clean_data (\<lambda>c. if c = Str ''12/1/2010 8:26'' \<or> c = Str ''12/01/2010 08:26''
                           then Some \<lparr>ts_year = 2010, ts_month = 12, ts_day = 1,
                                       ts_hour = 8, ts_minute = 26\<rparr>
                           else None)
            \<lparr>columns = [''CustomerID'', ''Description'', ''InvoiceDate'', ''Quantity'', ''UnitPrice''],
             rows = [(0, [Num 17850, Str ''LANTERN'', Str ''12/1/2010 8:26'', Num 6, Num 3]),
                     (1, [Num 17850, Str ''LANTERN'', Str ''12/01/2010 08:26'', Num 6, Num 3])]\<rparr>
            = Inr out \<and> length (rows out) = 2 \<and> \<not> distinct (map snd (rows out))"
    by (intro exI [of _ ?o] conjI c d e)
  show ?thesis
    by (intro conjI a b ex)
qed

end
